theory Spec2Isabelle
  imports Main "HOL-Library.Multiset" "HOL-Library.Product_Lexorder" "HOL-Library.Word"
begin

section \<open>The value-set lattice: ValCtx and PointerBase\<close>

text \<open>
  \<^verbatim>\<open>ValCtx\<close> (HypotheticalConstantFolder.h) is a plain struct of a value pointer, a
  context pointer, a pointer-as-integer offset and a vararg tag. The two pointer fields are
  kept polymorphic: \<open>'v\<close> stands for \<^verbatim>\<open>Value*\<close>, \<open>'c\<close> for \<^verbatim>\<open>IntegrationAttempt*\<close>.
  \<^verbatim>\<open>operator==\<close> on ValCtx compares all four fields, which is HOL equality of the record.
\<close>

record ('v, 'c) ValCtx =
  first :: 'v
  second :: 'c
  offset :: int
  va_arg :: int

definition noOffset :: int where
  "noOffset = 9223372036854775807"

definition not_va_arg :: int where
  "not_va_arg = -1"

text \<open>\<^verbatim>\<open>operator<\<close> on ValCtx: field by field, pointers compared by address.\<close>

definition ValCtx_less :: "('v::linorder, 'c::linorder) ValCtx \<Rightarrow> ('v, 'c) ValCtx \<Rightarrow> bool" where
  "ValCtx_less V1 V2 =
     (if first V1 \<noteq> first V2 then first V1 < first V2
      else if second V1 \<noteq> second V2 then second V1 < second V2
      else if offset V1 \<noteq> offset V2 then offset V1 < offset V2
      else va_arg V1 < va_arg V2)"

definition ValCtx_key :: "('v, 'c) ValCtx \<Rightarrow> 'v \<times> 'c \<times> int \<times> int" where
  "ValCtx_key V = (first V, second V, offset V, va_arg V)"

text \<open>\<^verbatim>\<open>std::sort\<close> of a ValCtx vector with \<^verbatim>\<open>operator<\<close>: the ascending arrangement.\<close>

definition std_sort :: "('v::linorder, 'c::linorder) ValCtx list \<Rightarrow> ('v, 'c) ValCtx list" where
  "std_sort xs = sort_key ValCtx_key xs"

text \<open>\<^verbatim>\<open>make_vc(V, H)\<close> with its default offset and vararg arguments.\<close>

definition make_vc :: "'v \<Rightarrow> 'c \<Rightarrow> ('v, 'c) ValCtx" where
  "make_vc V H = \<lparr>first = V, second = H, offset = noOffset, va_arg = not_va_arg\<rparr>"

definition PBMAX :: nat where
  "PBMAX = 16"

datatype ValSetType = ValSetTypeUnknown | ValSetTypePB | ValSetTypeScalar

record 'a PointerBase =
  Type :: ValSetType
  Values :: "'a list"
  Overdef :: bool

text \<open>The three constructors \<^verbatim>\<open>PointerBase()\<close>, \<^verbatim>\<open>PointerBase(T)\<close>, \<^verbatim>\<open>PointerBase(T, OD)\<close>.\<close>

definition PointerBase0 :: "'a PointerBase" where
  "PointerBase0 = \<lparr>Type = ValSetTypeUnknown, Values = [], Overdef = False\<rparr>"

definition PointerBase1 :: "ValSetType \<Rightarrow> 'a PointerBase" where
  "PointerBase1 T = \<lparr>Type = T, Values = [], Overdef = False\<rparr>"

definition PointerBase2 :: "ValSetType \<Rightarrow> bool \<Rightarrow> 'a PointerBase" where
  "PointerBase2 T OD = \<lparr>Type = T, Values = [], Overdef = OD\<rparr>"

definition isInitialised :: "'a PointerBase \<Rightarrow> bool" where
  "isInitialised pb = (Overdef pb \<or> length (Values pb) > 0)"

definition setOverdef :: "'a PointerBase \<Rightarrow> 'a PointerBase" where
  "setOverdef pb = pb\<lparr>Values := [], Overdef := True\<rparr>"

definition insert_PB :: "'a PointerBase \<Rightarrow> 'a \<Rightarrow> 'a PointerBase" where
  "insert_PB pb VC =
     (if Overdef pb then pb
      else if count_list (Values pb) VC \<noteq> 0 then pb
      else if length (Values pb) + 1 > PBMAX then setOverdef pb
      else pb\<lparr>Values := Values pb @ [VC]\<rparr>)"

text \<open>The loop of \<^verbatim>\<open>merge\<close>: insert each value of the other side while not overdefined.\<close>

fun merge_loop :: "'a PointerBase \<Rightarrow> 'a list \<Rightarrow> 'a PointerBase" where
  "merge_loop pb [] = pb"
| "merge_loop pb (v # vs) = (if Overdef pb then pb else merge_loop (insert_PB pb v) vs)"

definition merge :: "'a PointerBase \<Rightarrow> 'a PointerBase \<Rightarrow> 'a PointerBase" where
  "merge pb OtherPB =
     (if Overdef OtherPB then setOverdef pb
      else if isInitialised pb \<and> Type OtherPB \<noteq> Type pb then setOverdef pb
      else merge_loop (pb\<lparr>Type := Type OtherPB\<rparr>) (Values OtherPB))"

definition getOverdef :: "'a PointerBase" where
  "getOverdef = PointerBase2 ValSetTypeUnknown True"

text \<open>\<^verbatim>\<open>PointerBase::get(VC, t)\<close>: the singleton of the given type.\<close>

definition get_typed :: "'a \<Rightarrow> ValSetType \<Rightarrow> 'a PointerBase" where
  "get_typed VC t = insert_PB (PointerBase1 t) VC"

text \<open>
  \<^verbatim>\<open>operator==(PointerBase&, PointerBase&)\<close>. Both operands are passed by reference and
  sorted in place once the flags and the sizes agree, so the model returns the verdict
  together with both operands as they are left.
\<close>

fun values_agree :: "'a list \<Rightarrow> 'a list \<Rightarrow> bool" where
  "values_agree (x # xs) (y # ys) = (if x \<noteq> y then False else values_agree xs ys)"
| "values_agree _ _ = True"

definition PointerBase_eq ::
  "('v::linorder, 'c::linorder) ValCtx PointerBase \<Rightarrow> ('v, 'c) ValCtx PointerBase \<Rightarrow>
   bool \<times> ('v, 'c) ValCtx PointerBase \<times> ('v, 'c) ValCtx PointerBase" where
  "PointerBase_eq PB1 PB2 =
     (if Overdef PB1 \<noteq> Overdef PB2 then (False, PB1, PB2)
      else if Overdef PB1 then (True, PB1, PB2)
      else if length (Values PB1) \<noteq> length (Values PB2) then (False, PB1, PB2)
      else
        (let PB1' = PB1\<lparr>Values := std_sort (Values PB1)\<rparr>;
             PB2' = PB2\<lparr>Values := std_sort (Values PB2)\<rparr>
         in (values_agree (Values PB1') (Values PB2'), PB1', PB2')))"

subsection \<open>Sequences of insert and merge operations\<close>

text \<open>
  A run of \<^verbatim>\<open>insert\<close> and \<^verbatim>\<open>merge\<close> calls on one receiver, the candidates each call
  offers, and the restriction to non-overdefined operands of the receiver's type.
\<close>

datatype 'a PBOp = OpInsert 'a | OpMerge "'a PointerBase"

fun apply_op :: "'a PointerBase \<Rightarrow> 'a PBOp \<Rightarrow> 'a PointerBase" where
  "apply_op pb (OpInsert v) = insert_PB pb v"
| "apply_op pb (OpMerge b) = merge pb b"

fun op_candidates :: "'a PBOp \<Rightarrow> 'a set" where
  "op_candidates (OpInsert v) = {v}"
| "op_candidates (OpMerge b) = set (Values b)"

fun op_admissible :: "ValSetType \<Rightarrow> 'a PBOp \<Rightarrow> bool" where
  "op_admissible T (OpInsert v) = True"
| "op_admissible T (OpMerge b) = (\<not> Overdef b \<and> Type b = T)"

text \<open>
  The specification's reading of the cap: a result stands for the candidate set \<open>S\<close> when it
  holds exactly \<open>S\<close> (without duplicates) while \<open>S\<close> has at most \<open>PBMAX\<close> members, and is
  overdefined with an emptied value list otherwise.
\<close>

definition capped_union :: "'a set \<Rightarrow> 'a PointerBase \<Rightarrow> bool" where
  "capped_union S r =
     (if card S \<le> PBMAX then \<not> Overdef r \<and> set (Values r) = S \<and> distinct (Values r)
      else Overdef r \<and> Values r = [])"

section \<open>Contexts and instructions\<close>

text \<open>
  IR entities are pointers in the source; here \<^verbatim>\<open>Value*\<close>, \<^verbatim>\<open>BasicBlock*\<close> and
  \<^verbatim>\<open>const Loop*\<close> are addresses. A context of the tree is named by its position: the root
  \<^verbatim>\<open>InlineAttempt\<close> (whose \<^verbatim>\<open>parent\<close> is null), the \<^verbatim>\<open>InlineAttempt\<close> of a call site in its
  parent (\<^verbatim>\<open>inlineChildren\<close> is keyed by the call), and the \<^verbatim>\<open>PeelIteration\<close> with a given
  iteration count of a loop's \<^verbatim>\<open>PeelAttempt\<close> in its parent (\<^verbatim>\<open>peelChildren\<close> is keyed by
  the loop, \<^verbatim>\<open>Iterations\<close> by the count).
\<close>

type_synonym Value = nat
type_synonym BasicBlock = nat
type_synonym Loop = nat

datatype Ctx =
    RootInlineAttempt
  | InlineAttempt Ctx Value
  | PeelIteration Ctx Loop nat

type_synonym VC = "(Value, Ctx option) ValCtx"
type_synonym PB = "VC PointerBase"

text \<open>\<^verbatim>\<open>const_vc(C)\<close> is \<^verbatim>\<open>make_vc(C, 0)\<close>: a constant lives in no context.\<close>

definition const_vc :: "Value \<Rightarrow> VC" where
  "const_vc C = make_vc C None"

datatype Opcode =
    GetElementPtr | BitCast | SExt | ZExt | Trunc | IntToPtr | PtrToInt
  | Add | Sub | And | Or | Xor | PHI | Select | Load | Call | Store | Ret | OtherOpcode

text \<open>
  The instructions the solver tells apart. A PHI lists its incoming (value, block) pairs;
  a call records whether its type is void.
\<close>

datatype Instruction =
    SelectInst Value Value Value
  | CallInst bool
  | PHINode "(Value \<times> BasicBlock) list"
  | LoadInst Value
  | UnaryInst Opcode Value
  | BinaryOperator Opcode Value Value
  | OtherInst Opcode

fun getOpcode :: "Instruction \<Rightarrow> Opcode" where
  "getOpcode (SelectInst c t f) = Select"
| "getOpcode (CallInst v) = Call"
| "getOpcode (PHINode inc) = PHI"
| "getOpcode (LoadInst p) = Load"
| "getOpcode (UnaryInst opc a) = opc"
| "getOpcode (BinaryOperator opc a b) = opc"
| "getOpcode (OtherInst opc) = opc"

section \<open>Merging the facts of feasible predecessors\<close>

text \<open>
  What \<^verbatim>\<open>getMergeBasePointer\<close> asks of its surroundings: edge and block liveness of a
  context, the inline attempt of a call, the blocks of the called function (each with its
  \<^verbatim>\<open>ReturnInst\<close> terminator and returned operand, if it ends in one), the block of an
  instruction, and \<^verbatim>\<open>getValSetOrReplacement\<close> of a context for a value and its user.
\<close>

record MergeEnv =
  edgeIsDead :: "Ctx \<Rightarrow> BasicBlock \<Rightarrow> BasicBlock \<Rightarrow> bool"
  blockIsDead :: "Ctx \<Rightarrow> BasicBlock \<Rightarrow> bool"
  getInlineAttempt :: "Ctx \<Rightarrow> Value \<Rightarrow> Ctx option"
  getCalledFunction :: "Ctx \<Rightarrow> Value \<Rightarrow> (BasicBlock \<times> (Value \<times> Value) option) list"
  getParent :: "Value \<Rightarrow> BasicBlock"
  getValSetOrReplacement :: "Ctx \<Rightarrow> Value \<Rightarrow> Value option \<Rightarrow> PB option"

text \<open>The return values of the live return blocks of an inlined call, in block order.\<close>

fun liveReturns ::
  "MergeEnv \<Rightarrow> Ctx \<Rightarrow> (BasicBlock \<times> (Value \<times> Value) option) list \<Rightarrow> ((Value \<times> Ctx) \<times> Value) list" where
  "liveReturns env IA [] = []"
| "liveReturns env IA ((bb, None) # rest) = liveReturns env IA rest"
| "liveReturns env IA ((bb, Some (RI, rv)) # rest) =
     (if blockIsDead env IA bb then liveReturns env IA rest
      else ((rv, IA), RI) # liveReturns env IA rest)"

text \<open>The incoming values of a PHI over edges that are not dead.\<close>

fun liveIncoming ::
  "MergeEnv \<Rightarrow> Ctx \<Rightarrow> Value \<Rightarrow> (Value \<times> BasicBlock) list \<Rightarrow> ((Value \<times> Ctx) \<times> Value) list" where
  "liveIncoming env this PN [] = []"
| "liveIncoming env this PN ((v, bb) # rest) =
     (if edgeIsDead env this bb (getParent env PN) then liveIncoming env this PN rest
      else ((v, this), PN) # liveIncoming env this PN rest)"

text \<open>
  The first half of \<^verbatim>\<open>getMergeBasePointer\<close>: the vector \<^verbatim>\<open>Vals\<close>, or \<open>None\<close> where the
  function returns false before merging (a void call, a call that is not inlined). The
  final \<^verbatim>\<open>cast<PHINode>\<close> is only reached for a PHI; the callers pass nothing else.
\<close>

fun mergeVals :: "MergeEnv \<Rightarrow> Ctx \<Rightarrow> Value \<Rightarrow> Instruction \<Rightarrow> ((Value \<times> Ctx) \<times> Value) list option" where
  "mergeVals env this I (SelectInst c tv fv) = Some [((tv, this), I), ((fv, this), I)]"
| "mergeVals env this I (CallInst isVoidTy) =
     (if isVoidTy then None
      else (case getInlineAttempt env this I of
              Some IA \<Rightarrow> Some (liveReturns env IA (getCalledFunction env this I))
            | None \<Rightarrow> None))"
| "mergeVals env this I (PHINode incoming) = Some (liveIncoming env this I incoming)"
| "mergeVals env this I _ = None"

text \<open>
  The merge loop, running while \<^verbatim>\<open>NewPB\<close> is not overdefined. It carries \<^verbatim>\<open>anyInfo\<close> and
  \<^verbatim>\<open>NewPB\<close>; a missing fact returns true with overdef at once when finalising and is
  skipped otherwise.
\<close>

fun mergeLoop ::
  "MergeEnv \<Rightarrow> bool \<Rightarrow> ((Value \<times> Ctx) \<times> Value) list \<Rightarrow> bool \<Rightarrow> PB \<Rightarrow> bool \<times> PB" where
  "mergeLoop env finalise [] anyInfo NewPB = (anyInfo, NewPB)"
| "mergeLoop env finalise (((V, VCtx), VUser) # rest) anyInfo NewPB =
     (if Overdef NewPB then (anyInfo, NewPB)
      else (case getValSetOrReplacement env VCtx V (Some VUser) of
              None \<Rightarrow> (if finalise then (True, getOverdef) else mergeLoop env finalise rest anyInfo NewPB)
            | Some VPB \<Rightarrow> mergeLoop env finalise rest True (merge NewPB VPB)))"

definition getMergeBasePointer ::
  "MergeEnv \<Rightarrow> Ctx \<Rightarrow> Value \<Rightarrow> Instruction \<Rightarrow> bool \<Rightarrow> PB \<Rightarrow> bool \<times> PB" where
  "getMergeBasePointer env this I inst finalise NewPB =
     (case mergeVals env this I inst of
        None \<Rightarrow> (False, NewPB)
      | Some Vals \<Rightarrow> mergeLoop env finalise Vals False NewPB)"


definition availableFacts :: "MergeEnv \<Rightarrow> ((Value \<times> Ctx) \<times> Value) list \<Rightarrow> PB list" where
  "availableFacts env preds =
     List.map_filter (\<lambda>p. getValSetOrReplacement env (snd (fst p)) (fst (fst p)) (Some (snd p))) preds"

fun mergeFacts :: "PB \<Rightarrow> PB list \<Rightarrow> PB" where
  "mergeFacts NewPB [] = NewPB"
| "mergeFacts NewPB (f # fs) = (if Overdef NewPB then NewPB else mergeFacts (merge NewPB f) fs)"

section \<open>Facts of constants and binary operators\<close>

text \<open>
  What the solver reads of LLVM: for a value that is a \<^verbatim>\<open>Constant\<close>, the shape
  \<^verbatim>\<open>extractCEBase\<close> walks (a global value, a constant expression with its opcode and
  operands, anything else); whether a value's type is a pointer type and whether its pointee
  is a function type; whether it is an \<^verbatim>\<open>AllocaInst\<close> or a no-alias call;
  \<^verbatim>\<open>ConstantExpr::get\<close> and \<^verbatim>\<open>ConstantFoldConstantExpression\<close> (which
  may return null).
\<close>

datatype Constant =
    GlobalValue Value
  | ConstantExpr Opcode Constant "Constant list"
  | OtherConstant

record IRView =
  asConstant :: "Value \<Rightarrow> Constant option"
  isPointerTy :: "Value \<Rightarrow> bool"
  pointeeIsFunctionTy :: "Value \<Rightarrow> bool"
  isAllocaInst :: "Value \<Rightarrow> bool"
  isNoAliasCall :: "Value \<Rightarrow> bool"
  ConstantExpr_get :: "Opcode \<Rightarrow> Value \<Rightarrow> Value \<Rightarrow> Value"
  ConstantFoldConstantExpression :: "Value \<Rightarrow> Value option"

text \<open>
  \<^verbatim>\<open>extractCEBase\<close>: the global a constant expression is based on. The first operand of a
  constant expression is kept apart from the others, \<^verbatim>\<open>getOperand(1)\<close> is the head of the rest.
\<close>

fun extractCEBase :: "Constant \<Rightarrow> VC option" where
  "extractCEBase (GlobalValue C) = Some (const_vc C)"
| "extractCEBase OtherConstant = None"
| "extractCEBase (ConstantExpr opc op0 ops) =
     (if opc \<in> {GetElementPtr, BitCast, SExt, ZExt, IntToPtr, PtrToInt} then extractCEBase op0
      else if opc = Add \<or> opc = Sub then
        (case ops of
           [] \<Rightarrow> None
         | op1 # _ \<Rightarrow>
            (let VC1 = extractCEBase op0; VC2 = extractCEBase op1 in
             if opc = Add then
               (if (VC1 \<noteq> None) = (VC2 \<noteq> None) then None
                else if VC1 \<noteq> None then VC1 else VC2)
             else
               (if VC1 = None \<or> VC2 \<noteq> None then None else VC1)))
      else None)"

text \<open>\<^verbatim>\<open>PointerBase::get(VC)\<close>: function pointers and non-pointer constants are scalars.\<close>

definition PointerBase_get :: "IRView \<Rightarrow> VC \<Rightarrow> PB" where
  "PointerBase_get ir VC =
     (let PTy = isPointerTy ir (first VC);
          isFunctionTy = (PTy \<and> pointeeIsFunctionTy ir (first VC)) in
      case asConstant ir (first VC) of
        Some C \<Rightarrow>
          (case extractCEBase C of
             Some CEGlobal \<Rightarrow> get_typed CEGlobal ValSetTypePB
           | None \<Rightarrow> if isFunctionTy \<or> \<not> PTy then get_typed VC ValSetTypeScalar
                     else get_typed VC ValSetTypePB)
      | None \<Rightarrow> get_typed VC ValSetTypePB)"

text \<open>
  The body of the cross-product loop of \<^verbatim>\<open>updateBinopValSet\<close>: build the constant
  expression, fold it if it is one, and turn the result (or a null result) into a fact.
\<close>

definition isConstantExpr :: "IRView \<Rightarrow> Value \<Rightarrow> bool" where
  "isConstantExpr ir V = (case asConstant ir V of Some (ConstantExpr opc a b) \<Rightarrow> True | _ \<Rightarrow> False)"

definition foldPair :: "IRView \<Rightarrow> Opcode \<Rightarrow> VC \<Rightarrow> VC \<Rightarrow> PB" where
  "foldPair ir opc v1 v2 =
     (let Expr0 = ConstantExpr_get ir opc (first v1) (first v2);
          Expr = (if isConstantExpr ir Expr0 then ConstantFoldConstantExpression ir Expr0
                  else Some Expr0) in
      case Expr of
        Some E \<Rightarrow> PointerBase_get ir (const_vc E)
      | None \<Rightarrow> getOverdef)"

fun binopInner :: "IRView \<Rightarrow> Opcode \<Rightarrow> VC \<Rightarrow> VC list \<Rightarrow> PB \<Rightarrow> PB" where
  "binopInner ir opc v1 [] pb = pb"
| "binopInner ir opc v1 (v2 # rest) pb =
     (if Overdef pb then pb else binopInner ir opc v1 rest (merge pb (foldPair ir opc v1 v2)))"

fun binopOuter :: "IRView \<Rightarrow> Opcode \<Rightarrow> VC list \<Rightarrow> VC list \<Rightarrow> PB \<Rightarrow> PB" where
  "binopOuter ir opc [] vs2 pb = pb"
| "binopOuter ir opc (v1 # rest) vs2 pb =
     (if Overdef pb then pb else binopOuter ir opc rest vs2 (binopInner ir opc v1 vs2 pb))"

text \<open>
  \<^verbatim>\<open>updateBinopValSet\<close> for the instruction \<^verbatim>\<open>I = opc a b\<close>, with \<open>pb\<close> the caller's
  \<^verbatim>\<open>PB\<close>. \<open>None\<close> is the return value false; \<open>Some r\<close> is true with \<^verbatim>\<open>PB\<close> left as \<open>r\<close>.
  An operand without a fact leaves its local \<^verbatim>\<open>PointerBase\<close> default-constructed.
\<close>

definition updateBinopValSet :: "MergeEnv \<Rightarrow> IRView \<Rightarrow> Ctx \<Rightarrow> Opcode \<Rightarrow> Value \<Rightarrow> Value \<Rightarrow> PB \<Rightarrow> PB option" where
  "updateBinopValSet env ir this opc a b pb =
     (let Op1 = getValSetOrReplacement env this a None;
          Op2 = getValSetOrReplacement env this b None;
          Op1PB = (case Op1 of Some p \<Rightarrow> p | None \<Rightarrow> PointerBase0);
          Op2PB = (case Op2 of Some p \<Rightarrow> p | None \<Rightarrow> PointerBase0) in
      if Op1 = None \<and> Op2 = None then None
      else if Op1 \<noteq> None \<and> Op2 \<noteq> None \<and> (Overdef Op1PB \<or> Overdef Op2PB) then Some getOverdef
      else if Type Op1PB = ValSetTypePB \<or> Type Op2PB = ValSetTypePB then
        (if opc = Add \<or> opc = Sub then
           (if Type Op1PB = ValSetTypePB \<and> Type Op2PB = ValSetTypePB then Some getOverdef
            else Some (if Type Op1PB = ValSetTypePB then Op1PB else Op2PB))
         else None)
      else if Type Op1PB \<noteq> ValSetTypeScalar \<or> Type Op2PB \<noteq> ValSetTypeScalar then None
      else Some (binopOuter ir opc (Values Op1PB) (Values Op2PB) pb))"

section \<open>Stored facts and the header-PHI rule\<close>

text \<open>
  The tables of the contexts, each indexed by the context that owns it, and the queues of
  the pass. A \<^verbatim>\<open>DenseSet\<close> of (load, context) pairs is a duplicate-free list.
\<close>

record State =
  pointerBases :: "Ctx \<Rightarrow> Value \<rightharpoonup> PB"
  memWriterEffects :: "Ctx \<Rightarrow> Value \<Rightarrow> (Value \<times> Ctx) list"
  callBlockedPBLoads :: "Ctx \<Rightarrow> Value \<rightharpoonup> (Value \<times> Ctx) list"
  CFGDependentPBLoads :: "Ctx \<Rightarrow> (Value \<times> Ctx) list"
  defOrClobberCache :: "Ctx \<Rightarrow> Value \<rightharpoonup> VC list"
  failedLFACache :: "Ctx \<Rightarrow> Value \<rightharpoonup> string"
  optimisticForwardStatus :: "Ctx \<Rightarrow> Value \<rightharpoonup> string"
  pessimisticForwardStatus :: "Ctx \<Rightarrow> Value \<rightharpoonup> string"
  pendingPBChecks :: "VC list"

definition emptyState :: State where
  "emptyState =
     \<lparr>pointerBases = (\<lambda>c. Map.empty), memWriterEffects = (\<lambda>c i. []),
      callBlockedPBLoads = (\<lambda>c. Map.empty), CFGDependentPBLoads = (\<lambda>c. []),
      defOrClobberCache = (\<lambda>c. Map.empty), failedLFACache = (\<lambda>c. Map.empty),
      optimisticForwardStatus = (\<lambda>c. Map.empty), pessimisticForwardStatus = (\<lambda>c. Map.empty),
      pendingPBChecks = []\<rparr>"

definition isaGlobalValue :: "IRView \<Rightarrow> Value \<Rightarrow> bool" where
  "isaGlobalValue ir V = (case asConstant ir V of Some (GlobalValue g) \<Rightarrow> True | _ \<Rightarrow> False)"

definition getPointerBaseLocal :: "IRView \<Rightarrow> State \<Rightarrow> Ctx \<Rightarrow> Value \<Rightarrow> PB option" where
  "getPointerBaseLocal ir st this V =
     (if isAllocaInst ir V \<or> isNoAliasCall ir V then Some (PointerBase_get ir (make_vc V (Some this)))
      else if isaGlobalValue ir V then Some (PointerBase_get ir (const_vc V))
      else if isConstantExpr ir V then Some (PointerBase_get ir (const_vc V))
      else pointerBases st this V)"

text \<open>
  \<^verbatim>\<open>getLoopContext()\<close> is the loop of a peel iteration and null for an inline attempt, so
  \<^verbatim>\<open>getPointerBaseFalling\<close> climbs from a peel iteration to its parent and stops at an
  inline attempt.
\<close>

fun getLoopContext :: "Ctx \<Rightarrow> Loop option" where
  "getLoopContext (PeelIteration p L n) = Some L"
| "getLoopContext _ = None"

fun getPointerBaseFalling :: "IRView \<Rightarrow> State \<Rightarrow> Ctx \<Rightarrow> Value \<Rightarrow> PB option" where
  "getPointerBaseFalling ir st (PeelIteration p L n) V =
     (case getPointerBaseLocal ir st (PeelIteration p L n) V of
        Some pb \<Rightarrow> Some pb
      | None \<Rightarrow> getPointerBaseFalling ir st p V)"
| "getPointerBaseFalling ir st this V = getPointerBaseLocal ir st this V"

text \<open>
  \<^verbatim>\<open>LoopInfo\<close> as the header-PHI rule reads it, and \<^verbatim>\<open>PHINode::getIncomingValueForBlock\<close>,
  which asserts that the block is an incoming block of the PHI.
\<close>

record LoopInfo =
  getHeader :: "Loop \<Rightarrow> BasicBlock"
  getLoopPreheader :: "Loop \<Rightarrow> BasicBlock"
  getLoopLatch :: "Loop \<Rightarrow> BasicBlock"

fun getIncomingValueForBlock :: "(Value \<times> BasicBlock) list \<Rightarrow> BasicBlock \<Rightarrow> Value option" where
  "getIncomingValueForBlock [] BB = None"
| "getIncomingValueForBlock ((v, b) # rest) BB =
     (if b = BB then Some v else getIncomingValueForBlock rest BB)"

text \<open>
  The outcome of \<^verbatim>\<open>updateHeaderPHIPB\<close>: the return value false; the return value true with
  \<^verbatim>\<open>NewPBValid\<close> and \<^verbatim>\<open>NewPB\<close> as one optional fact; or the failed assertion of
  \<^verbatim>\<open>getIncomingValueForBlock\<close>.
\<close>

datatype HeaderPHIResult = NotHeaderPHI | HeaderPHI "PB option" | InvalidIncomingBlock

fun updateHeaderPHIPB ::
  "IRView \<Rightarrow> LoopInfo \<Rightarrow> State \<Rightarrow> Ctx \<Rightarrow> BasicBlock \<Rightarrow> (Value \<times> BasicBlock) list \<Rightarrow> HeaderPHIResult" where
  "updateHeaderPHIPB ir li st (PeelIteration parent L iterationCount) PNParent incoming =
     (if getHeader li L = PNParent then
        (case iterationCount of
           0 \<Rightarrow>
             (case getIncomingValueForBlock incoming (getLoopPreheader li L) of
                None \<Rightarrow> InvalidIncomingBlock
              | Some v \<Rightarrow> HeaderPHI (getPointerBaseFalling ir st parent v))
         | Suc previous \<Rightarrow>
             (case getIncomingValueForBlock incoming (getLoopLatch li L) of
                None \<Rightarrow> InvalidIncomingBlock
              | Some v \<Rightarrow> HeaderPHI (getPointerBaseFalling ir st (PeelIteration parent L previous) v)))
      else NotHeaderPHI)"
| "updateHeaderPHIPB ir li st this PNParent incoming = NotHeaderPHI"

section \<open>The per-load caches and their reverse edges\<close>

text \<open>The instruction kinds the cache code tells apart (\<^verbatim>\<open>dyn_cast\<close> and friends).\<close>

record InstKinds =
  isStoreInst :: "Value \<Rightarrow> bool"
  isCallInst :: "Value \<Rightarrow> bool"
  isMemIntrinsic :: "Value \<Rightarrow> bool"
  calledFunctionBlacklisted :: "Ctx \<Rightarrow> Value \<Rightarrow> bool"
  extractMallocCall :: "Value \<Rightarrow> bool"

definition addMemWriterEffect :: "State \<Rightarrow> Ctx \<Rightarrow> Value \<Rightarrow> Value \<Rightarrow> Ctx \<Rightarrow> State" where
  "addMemWriterEffect st this I LI C =
     st\<lparr>memWriterEffects := (memWriterEffects st)
          (this := (memWriterEffects st this)(I := List.insert (LI, C) (memWriterEffects st this I)))\<rparr>"

definition removeMemWriterEffect :: "State \<Rightarrow> Ctx \<Rightarrow> Value \<Rightarrow> Value \<Rightarrow> Ctx \<Rightarrow> State" where
  "removeMemWriterEffect st this I LI C =
     st\<lparr>memWriterEffects := (memWriterEffects st)
          (this := (memWriterEffects st this)(I := removeAll (LI, C) (memWriterEffects st this I)))\<rparr>"

definition addCallBlockedPBLoad :: "State \<Rightarrow> Ctx \<Rightarrow> Value \<Rightarrow> Value \<Rightarrow> Ctx \<Rightarrow> State" where
  "addCallBlockedPBLoad st this CI LI IA =
     st\<lparr>callBlockedPBLoads := (callBlockedPBLoads st)
          (this := (callBlockedPBLoads st this)
             (CI \<mapsto> (case callBlockedPBLoads st this CI of None \<Rightarrow> [] | Some l \<Rightarrow> l) @ [(LI, IA)]))\<rparr>"

definition addCFGDependentPBLoad :: "State \<Rightarrow> Ctx \<Rightarrow> Value \<Rightarrow> Ctx \<Rightarrow> State" where
  "addCFGDependentPBLoad st this LI IA =
     st\<lparr>CFGDependentPBLoads := (CFGDependentPBLoads st)
          (this := List.insert (LI, IA) (CFGDependentPBLoads st this))\<rparr>"

text \<open>
  Modelled from the spec: \<^verbatim>\<open>IntegrationHeuristicsPass::queuePendingPBUpdate\<close> is declared
  outside the files at hand; the out-of-scope queue \<^verbatim>\<open>pendingPBChecks\<close> receives the pair.
\<close>

definition queuePendingPBUpdate :: "State \<Rightarrow> VC \<Rightarrow> State" where
  "queuePendingPBUpdate st VC = st\<lparr>pendingPBChecks := pendingPBChecks st @ [VC]\<rparr>"

text \<open>The loop of \<^verbatim>\<open>zapDefOrClobberCache\<close> over the cached entry of the load.\<close>

fun zapLoop :: "InstKinds \<Rightarrow> Ctx \<Rightarrow> Value \<Rightarrow> VC list \<Rightarrow> State \<Rightarrow> State" where
  "zapLoop ik this LI [] st = st"
| "zapLoop ik this LI (e # es) st =
     (case second e of
        None \<Rightarrow> zapLoop ik this LI es st
      | Some C \<Rightarrow>
          (if isStoreInst ik (first e)
           then zapLoop ik this LI es (removeMemWriterEffect st C (first e) LI this)
           else zapLoop ik this LI es st))"

definition zapDefOrClobberCache :: "InstKinds \<Rightarrow> State \<Rightarrow> Ctx \<Rightarrow> Value \<Rightarrow> State" where
  "zapDefOrClobberCache ik st this LI =
     (let st1 = st\<lparr>failedLFACache := (failedLFACache st)(this := (failedLFACache st this)(LI := None))\<rparr>
      in case defOrClobberCache st1 this LI of
           None \<Rightarrow> st1
         | Some CEntry \<Rightarrow>
             (let st2 = zapLoop ik this LI CEntry st1
              in st2\<lparr>defOrClobberCache :=
                       (defOrClobberCache st2)(this := (defOrClobberCache st2 this)(LI := None))\<rparr>))"

text \<open>Zap and re-queue each of a list of dependent loads, as both callers below do.\<close>

fun zapAndQueue :: "InstKinds \<Rightarrow> (Value \<times> Ctx) list \<Rightarrow> State \<Rightarrow> State" where
  "zapAndQueue ik [] st = st"
| "zapAndQueue ik ((LI, C) # rest) st =
     zapAndQueue ik rest (queuePendingPBUpdate (zapDefOrClobberCache ik st C LI) (make_vc LI (Some C)))"

definition dismissCallBlockedPBLoads :: "InstKinds \<Rightarrow> State \<Rightarrow> Ctx \<Rightarrow> Value \<Rightarrow> State" where
  "dismissCallBlockedPBLoads ik st this CI =
     (case callBlockedPBLoads st this CI of
        None \<Rightarrow> st
      | Some Loads \<Rightarrow>
          (let st1 = zapAndQueue ik Loads st
           in st1\<lparr>callBlockedPBLoads :=
                    (callBlockedPBLoads st1)(this := (callBlockedPBLoads st1 this)(CI := None))\<rparr>))"

definition localCFGChanged :: "InstKinds \<Rightarrow> State \<Rightarrow> Ctx \<Rightarrow> State" where
  "localCFGChanged ik st this =
     (let st1 = zapAndQueue ik (CFGDependentPBLoads st this) st
      in st1\<lparr>CFGDependentPBLoads := (CFGDependentPBLoads st1)(this := [])\<rparr>)"

section \<open>Load forwarding in pointer-base mode\<close>

text \<open>
  The members of \<^verbatim>\<open>LoadForwardAttempt\<close> that the pointer-base solver touches. The symbolic
  expression of the load's pointer is built by code outside the files at hand; an attempt
  carries what \<^verbatim>\<open>canBuildSymExpr()\<close>, \<^verbatim>\<open>getBaseVC()\<close> and \<^verbatim>\<open>getSymExprOffset()\<close> answer.
\<close>

record LoadForwardAttempt =
  OverdefReasons :: "string list"
  DefOrClobberInstructions :: "VC list"
  IgnoredClobbers :: "VC list"
  TraversedCtxs :: "Ctx list"
  PB :: PB
  ReachedTop :: bool
  ReachedTopStr :: string
  CompletelyExplored :: bool
  PBOptimistic :: bool
  canBuildSymExpr :: bool
  BaseVC :: VC
  SymExprOffset :: int

definition setPBOverdef :: "LoadForwardAttempt \<Rightarrow> string \<Rightarrow> LoadForwardAttempt" where
  "setPBOverdef LFA reason = LFA\<lparr>OverdefReasons := OverdefReasons LFA @ [reason], PB := getOverdef\<rparr>"

definition addPBDefn :: "LoadForwardAttempt \<Rightarrow> PB \<Rightarrow> LoadForwardAttempt" where
  "addPBDefn LFA NewPB =
     (let WasOverdef = Overdef (PB LFA);
          LFA1 = LFA\<lparr>PB := merge (PB LFA) NewPB\<rparr>
      in if Overdef (PB LFA1) \<and> \<not> WasOverdef \<and> \<not> Overdef NewPB
         then LFA1\<lparr>OverdefReasons := OverdefReasons LFA1 @ [''Fan-in'']\<rparr>
         else LFA1)"

definition reachedTop :: "LoadForwardAttempt \<Rightarrow> string \<Rightarrow> LoadForwardAttempt" where
  "reachedTop LFA s = (setPBOverdef LFA s)\<lparr>ReachedTop := True, ReachedTopStr := s\<rparr>"

text \<open>
  What load forwarding asks of LLVM, of the target data and of the parts of the integrator
  kept in other files: global variables and their initialisers, type sizes in bits (of a
  value's type, as \<^verbatim>\<open>uint64_t\<close>), \<^verbatim>\<open>extractAggregateMemberAt\<close> (for the type of the given
  load), the walk \<^verbatim>\<open>tryResolveLoad\<close>, the constructor of an attempt, the alias queries of
  the cache replay, \<^verbatim>\<open>addPBResults\<close>, and the printer behind \<^verbatim>\<open>printPB\<close>.
\<close>

datatype MemDepResult = getDef Value "Ctx option" | getClobber Value "Ctx option"

datatype AliasResult = NoAlias | MayAlias | MustAlias

record LoadView =
  isGlobalVariable :: "Value \<Rightarrow> bool"
  hasDefinitiveInitializer :: "Value \<Rightarrow> bool"
  getInitializer :: "Value \<Rightarrow> Value"
  getTypeSizeInBits :: "Value \<Rightarrow> 64 word"
  extractAggregateMemberAt :: "Value \<Rightarrow> 64 word \<Rightarrow> Value \<Rightarrow> 64 word \<Rightarrow> VC"
  tryResolveLoad :: "State \<Rightarrow> Ctx \<Rightarrow> Value \<Rightarrow> LoadForwardAttempt \<Rightarrow> LoadForwardAttempt"
  newLoadForwardAttempt :: "Ctx \<Rightarrow> Value \<Rightarrow> LoadForwardAttempt"
  loadUnderlyingObject :: "Ctx \<Rightarrow> Value \<Rightarrow> VC"
  isNoModRef :: "VC \<Rightarrow> Ctx \<Rightarrow> Value \<Rightarrow> bool \<Rightarrow> bool"
  aliasHypothetical :: "VC \<Rightarrow> Ctx \<Rightarrow> Value \<Rightarrow> bool \<Rightarrow> AliasResult"
  addPBResults :: "State \<Rightarrow> LoadForwardAttempt \<Rightarrow> MemDepResult list \<Rightarrow> LoadForwardAttempt"
  printPB :: "PB \<Rightarrow> string"

definition VCNull :: VC where
  "VCNull = make_vc 0 None"

datatype error = AssertionFailed

text \<open>
  The nested conditions of \<^verbatim>\<open>addStartOfScopePB\<close>: the member of the global's initialiser
  that the load reads, if every test passes. Sizes and offsets are \<^verbatim>\<open>uint64_t\<close>; the
  subtraction wraps.
\<close>

definition startOfScopeField :: "LoadView \<Rightarrow> Value \<Rightarrow> LoadForwardAttempt \<Rightarrow> VC option" where
  "startOfScopeField lv LI LFA =
     (if canBuildSymExpr LFA then
        (let PointerVC = BaseVC LFA; GV = first PointerVC in
         if isGlobalVariable lv GV then
           (if hasDefinitiveInitializer lv GV then
              (let GVC = getInitializer lv GV;
                   GVCSize = (getTypeSizeInBits lv GVC + 7) div 8;
                   ReadOffset = (word_of_int (SymExprOffset LFA) :: 64 word);
                   LoadSize = (getTypeSizeInBits lv LI + 7) div 8;
                   FirstNotDef = min (GVCSize - ReadOffset) LoadSize in
               if FirstNotDef = LoadSize then
                 (let FieldVC = extractAggregateMemberAt lv GVC ReadOffset LI LoadSize in
                  if FieldVC \<noteq> VCNull then Some FieldVC else None)
               else None)
            else None)
         else None)
      else None)"

definition addStartOfScopePB ::
  "IRView \<Rightarrow> LoadView \<Rightarrow> Value \<Rightarrow> LoadForwardAttempt \<Rightarrow> error + LoadForwardAttempt" where
  "addStartOfScopePB ir lv LI LFA =
     (case startOfScopeField lv LI LFA of
        Some FieldVC \<Rightarrow>
          (if asConstant ir (first FieldVC) = None then Inl AssertionFailed
           else Inr (addPBDefn
                  (LFA\<lparr>DefOrClobberInstructions := DefOrClobberInstructions LFA @ [FieldVC]\<rparr>)
                  (PointerBase_get ir FieldVC)))
      | None \<Rightarrow> Inr (reachedTop LFA ''Reached main''))"

fun joinReasons :: "string list \<Rightarrow> string" where
  "joinReasons [] = []"
| "joinReasons [r] = r"
| "joinReasons (r # rs) = r @ '', '' @ joinReasons rs"

definition describeLFA :: "LoadView \<Rightarrow> LoadForwardAttempt \<Rightarrow> string" where
  "describeLFA lv LFA =
     (if Overdef (PB LFA) then joinReasons (OverdefReasons LFA)
      else if length (Values (PB LFA)) = 0 then ''No defn''
      else printPB lv (PB LFA))"

text \<open>Registering the reverse edges of a freshly cached entry.\<close>

fun registerDependencies :: "InstKinds \<Rightarrow> Ctx \<Rightarrow> Value \<Rightarrow> VC list \<Rightarrow> State \<Rightarrow> State" where
  "registerDependencies ik this LI [] st = st"
| "registerDependencies ik this LI (e # es) st =
     (case second e of
        None \<Rightarrow> registerDependencies ik this LI es st
      | Some C \<Rightarrow>
          (if isStoreInst ik (first e)
           then registerDependencies ik this LI es (addMemWriterEffect st C (first e) LI this)
           else if isCallInst ik (first e) \<and> \<not> isMemIntrinsic ik (first e)
                   \<and> \<not> calledFunctionBlacklisted ik this (first e)
           then registerDependencies ik this LI es (addCallBlockedPBLoad st C (first e) LI this)
           else registerDependencies ik this LI es st))"

fun registerTraversed :: "Ctx \<Rightarrow> Value \<Rightarrow> Ctx list \<Rightarrow> State \<Rightarrow> State" where
  "registerTraversed this LI [] st = st"
| "registerTraversed this LI (C # Cs) st = registerTraversed this LI Cs (addCFGDependentPBLoad st C LI this)"

text \<open>The replay of a cached entry: definitions of constants at once, the rest as results.\<close>

fun replayCache ::
  "IRView \<Rightarrow> InstKinds \<Rightarrow> LoadView \<Rightarrow> Ctx \<Rightarrow> Value \<Rightarrow> bool \<Rightarrow> VC list \<Rightarrow>
   LoadForwardAttempt \<Rightarrow> MemDepResult list \<Rightarrow> LoadForwardAttempt \<times> MemDepResult list" where
  "replayCache ir ik lv this LI finalise [] Attempt NLResults = (Attempt, NLResults)"
| "replayCache ir ik lv this LI finalise (e # es) Attempt NLResults =
     (if asConstant ir (first e) \<noteq> None
      then replayCache ir ik lv this LI finalise es (addPBDefn Attempt (PointerBase_get ir e)) NLResults
      else if isAllocaInst ir (first e) \<or> (isCallInst ik (first e) \<and> extractMallocCall ik (first e))
      then (if loadUnderlyingObject lv this LI = make_vc (first e) (second e)
            then replayCache ir ik lv this LI finalise es Attempt
                   (NLResults @ [getDef (first e) (second e)])
            else replayCache ir ik lv this LI finalise es Attempt NLResults)
      else if isNoModRef lv e this LI finalise
      then replayCache ir ik lv this LI finalise es Attempt NLResults
      else if isStoreInst ik (first e)
      then (case aliasHypothetical lv e this LI finalise of
              NoAlias \<Rightarrow> replayCache ir ik lv this LI finalise es Attempt NLResults
            | MayAlias \<Rightarrow> replayCache ir ik lv this LI finalise es Attempt
                            (NLResults @ [getClobber (first e) (second e)])
            | MustAlias \<Rightarrow> replayCache ir ik lv this LI finalise es Attempt
                             (NLResults @ [getDef (first e) (second e)]))
      else replayCache ir ik lv this LI finalise es Attempt
             (NLResults @ [getClobber (first e) (second e)]))"

text \<open>
  \<^verbatim>\<open>tryForwardLoadPB\<close>. The result is the state, the attempt as it stands at the end, and
  \<^verbatim>\<open>NewPB\<close> when the function returns true. The statistics counters of the pass are left out.
  A first query in the pessimistic phase fails the assertion of the source.
\<close>

definition finishForwardLoadPB ::
  "LoadView \<Rightarrow> State \<Rightarrow> Ctx \<Rightarrow> Value \<Rightarrow> bool \<Rightarrow> LoadForwardAttempt \<Rightarrow>
   State \<times> LoadForwardAttempt \<times> PB option" where
  "finishForwardLoadPB lv st this LI finalise Attempt =
     (let st1 =
            (if \<not> finalise
             then st\<lparr>optimisticForwardStatus := (optimisticForwardStatus st)
                       (this := (optimisticForwardStatus st this)(LI \<mapsto> describeLFA lv Attempt))\<rparr>
             else st\<lparr>pessimisticForwardStatus := (pessimisticForwardStatus st)
                       (this := (pessimisticForwardStatus st this)(LI \<mapsto> describeLFA lv Attempt))\<rparr>)
      in if length (Values (PB Attempt)) = 0 \<and> \<not> Overdef (PB Attempt) then (st1, Attempt, None)
         else (st1, Attempt, Some (PB Attempt)))"

definition startAttempt :: "LoadView \<Rightarrow> Ctx \<Rightarrow> Value \<Rightarrow> bool \<Rightarrow> LoadForwardAttempt" where
  "startAttempt lv this LI finalise =
     (newLoadForwardAttempt lv this LI)
       \<lparr>PBOptimistic := \<not> finalise, CompletelyExplored := \<not> finalise, ReachedTop := False\<rparr>"

definition tryForwardLoadPB ::
  "IRView \<Rightarrow> InstKinds \<Rightarrow> LoadView \<Rightarrow> State \<Rightarrow> Ctx \<Rightarrow> Value \<Rightarrow> bool \<Rightarrow>
   error + (State \<times> LoadForwardAttempt \<times> PB option)" where
  "tryForwardLoadPB ir ik lv st this LI finalise =
     (let Attempt = startAttempt lv this LI finalise
      in case failedLFACache st this LI of
           Some reason \<Rightarrow> Inr (finishForwardLoadPB lv st this LI finalise (reachedTop Attempt reason))
         | None \<Rightarrow>
            (case defOrClobberCache st this LI of
               None \<Rightarrow>
                 (if finalise then Inl AssertionFailed
                  else
                    (let Attempt1 = tryResolveLoad lv st this LI Attempt in
                     if CompletelyExplored Attempt1 then
                       (if ReachedTop Attempt1 then
                          Inr (finishForwardLoadPB lv
                                 (st\<lparr>failedLFACache := (failedLFACache st)
                                       (this := (failedLFACache st this)(LI \<mapsto> ReachedTopStr Attempt1))\<rparr>)
                                 this LI finalise Attempt1)
                        else
                          (let CEntry = DefOrClobberInstructions Attempt1 @ IgnoredClobbers Attempt1;
                               st1 = st\<lparr>defOrClobberCache := (defOrClobberCache st)
                                       (this := (defOrClobberCache st this)(LI \<mapsto> CEntry))\<rparr>;
                               st2 = registerDependencies ik this LI CEntry st1;
                               st3 = registerTraversed this LI (TraversedCtxs Attempt1) st2
                           in Inr (finishForwardLoadPB lv st3 this LI finalise Attempt1)))
                     else Inr (finishForwardLoadPB lv st this LI finalise Attempt1)))
             | Some CEntry \<Rightarrow>
                 (let (Attempt1, NLResults) = replayCache ir ik lv this LI finalise CEntry Attempt [];
                      Attempt2 = addPBResults lv st Attempt1 NLResults
                  in Inr (finishForwardLoadPB lv st this LI finalise Attempt2))))"

section \<open>The transfer function and the worklist solver\<close>

text \<open>
  What \<^verbatim>\<open>updateBasePointer\<close> and the solver ask of code kept in other files: the kind of a
  value, its scope, its replacement and default \<^verbatim>\<open>ValCtx\<close>, call operands,
  \<^verbatim>\<open>ConstantExpr::getCast\<close> (for the type of the given instruction), the liveness and lookup
  functions as they stand for a given state of the tables, the targets on which the walk of
  \<^verbatim>\<open>queueUsersUpdatePB\<close> over the users of a value ends up calling \<^verbatim>\<open>queueUpdatePB\<close>, and the
  addresses of the contexts, which order the queue entries.
\<close>

datatype ValueInfo = IsInstruction Instruction | IsArgument nat | IsOtherValue

record SolverEnv =
  valueInfo :: "Value \<Rightarrow> ValueInfo"
  getValueScope :: "Ctx \<Rightarrow> Value \<Rightarrow> Loop option"
  getReplacement :: "Ctx \<Rightarrow> Value \<Rightarrow> VC"
  getDefaultVC :: "Ctx \<Rightarrow> Value \<Rightarrow> VC"
  getArgOperand :: "Value \<Rightarrow> nat \<Rightarrow> Value"
  ConstantExpr_getCast :: "Opcode \<Rightarrow> Value \<Rightarrow> Value \<Rightarrow> Value"
  mergeEnv :: "State \<Rightarrow> MergeEnv"
  queueUsersTargets :: "State \<Rightarrow> Ctx \<Rightarrow> Value \<Rightarrow> (Ctx \<times> Value) list"
  ctxAddr :: "Ctx \<Rightarrow> nat"

text \<open>
  The pass: the tables of the contexts, the two in-loop queues with the pointer
  \<^verbatim>\<open>PBProduceQ\<close> (true when it points to \<^verbatim>\<open>PBQueue1\<close>), the snapshots of the values under
  consideration, and the vector \<^verbatim>\<open>modifiedVCs\<close> a caller may pass to the solver.
\<close>

record Solver =
  tables :: State
  PBQueue1 :: "VC list"
  PBQueue2 :: "VC list"
  PBProduceQ :: bool
  PBsConsideredThisRun :: "VC \<rightharpoonup> PB"
  modifiedVCs :: "VC list"

definition hasResolvedPB :: "SolverEnv \<Rightarrow> IRView \<Rightarrow> Ctx \<Rightarrow> Value \<Rightarrow> bool" where
  "hasResolvedPB env ir this V =
     (if isAllocaInst ir V \<or> isNoAliasCall ir V then True
      else if getReplacement env this V \<noteq> getDefaultVC env this V then True
      else False)"

text \<open>\<^verbatim>\<open>getFunctionRoot()\<close>: the inline attempt a context belongs to.\<close>

fun getFunctionRoot :: "Ctx \<Rightarrow> Ctx" where
  "getFunctionRoot (PeelIteration p L n) = getFunctionRoot p"
| "getFunctionRoot IA = IA"

text \<open>\<^verbatim>\<open>InlineAttempt::getArgBasePointer\<close>, for the inline attempt \<open>IA\<close> and argument number \<open>n\<close>.\<close>

fun getArgBasePointer :: "SolverEnv \<Rightarrow> IRView \<Rightarrow> State \<Rightarrow> Ctx \<Rightarrow> nat \<Rightarrow> PB option" where
  "getArgBasePointer env ir st (InlineAttempt parent CI) n =
     getPointerBaseFalling ir st parent (getArgOperand env CI n)"
| "getArgBasePointer env ir st IA n = None"

text \<open>The loop of \<^verbatim>\<open>updateUnaryValSet\<close> over a scalar set.\<close>

definition castValue :: "SolverEnv \<Rightarrow> IRView \<Rightarrow> Opcode \<Rightarrow> Value \<Rightarrow> VC \<Rightarrow> PB" where
  "castValue env ir opc I v =
     (let Expr0 = ConstantExpr_getCast env opc (first v) I;
          Expr = (if isConstantExpr ir Expr0 then ConstantFoldConstantExpression ir Expr0
                  else Some Expr0) in
      case Expr of
        None \<Rightarrow> getOverdef
      | Some E \<Rightarrow> if isConstantExpr ir E then getOverdef else PointerBase_get ir (const_vc E))"

fun unaryLoop :: "SolverEnv \<Rightarrow> IRView \<Rightarrow> Opcode \<Rightarrow> Value \<Rightarrow> VC list \<Rightarrow> PB \<Rightarrow> PB" where
  "unaryLoop env ir opc I [] pb = pb"
| "unaryLoop env ir opc I (v # rest) pb =
     (if Overdef pb then pb else unaryLoop env ir opc I rest (merge pb (castValue env ir opc I v)))"

text \<open>
  \<^verbatim>\<open>updateUnaryValSet\<close> for \<^verbatim>\<open>I = opc a\<close>: no result, a result, or the failed assertion
  that the operand's fact has a type.
\<close>

definition updateUnaryValSet ::
  "SolverEnv \<Rightarrow> IRView \<Rightarrow> State \<Rightarrow> Ctx \<Rightarrow> Value \<Rightarrow> Opcode \<Rightarrow> Value \<Rightarrow> PB \<Rightarrow> error + PB option" where
  "updateUnaryValSet env ir st this I opc a pb =
     (case getValSetOrReplacement (mergeEnv env st) this a (Some I) of
        None \<Rightarrow> Inr None
      | Some ArgPB \<Rightarrow>
          (if Overdef ArgPB then Inr (Some ArgPB)
           else if Type ArgPB = ValSetTypeUnknown then Inl AssertionFailed
           else if Type ArgPB = ValSetTypeScalar then
             (if opc = SExt \<or> opc = ZExt \<or> opc = Trunc
              then Inr (Some (unaryLoop env ir opc I (Values ArgPB) pb))
              else Inr None)
           else Inr (Some ArgPB)))"

text \<open>
  \<^verbatim>\<open>IntegrationAttempt::queueUpdatePB\<close> with its three flags, and the walk over the users
  of a value that calls it.
\<close>

definition pass_queueUpdatePB :: "Solver \<Rightarrow> Ctx \<Rightarrow> Value \<Rightarrow> Solver" where
  "pass_queueUpdatePB s IA V =
     (if PBProduceQ s then s\<lparr>PBQueue1 := PBQueue1 s @ [make_vc V (Some IA)]\<rparr>
      else s\<lparr>PBQueue2 := PBQueue2 s @ [make_vc V (Some IA)]\<rparr>)"

definition queueUpdatePB :: "Solver \<Rightarrow> Ctx \<Rightarrow> Value \<Rightarrow> bool \<Rightarrow> bool \<Rightarrow> bool \<Rightarrow> error + Solver" where
  "queueUpdatePB s C V queueInLoopNow pendInLoop pendOutOfLoop =
     (let inLoop = (PBsConsideredThisRun s (make_vc V (Some C)) \<noteq> None) in
      if queueInLoopNow \<and> pendInLoop then Inl AssertionFailed
      else if queueInLoopNow \<and> inLoop then Inr (pass_queueUpdatePB s C V)
      else if (pendInLoop \<and> inLoop) \<or> (pendOutOfLoop \<and> \<not> inLoop)
      then Inr (s\<lparr>tables := queuePendingPBUpdate (tables s) (make_vc V (Some C))\<rparr>)
      else Inr s)"

fun queueTargets :: "(Ctx \<times> Value) list \<Rightarrow> bool \<Rightarrow> bool \<Rightarrow> bool \<Rightarrow> Solver \<Rightarrow> error + Solver" where
  "queueTargets [] q p po s = Inr s"
| "queueTargets ((C, V) # rest) q p po s =
     (case queueUpdatePB s C V q p po of
        Inl e \<Rightarrow> Inl e
      | Inr s1 \<Rightarrow> queueTargets rest q p po s1)"

definition queueUsersUpdatePB ::
  "SolverEnv \<Rightarrow> Solver \<Rightarrow> Ctx \<Rightarrow> Value \<Rightarrow> bool \<Rightarrow> bool \<Rightarrow> bool \<Rightarrow> error + Solver" where
  "queueUsersUpdatePB env s this V q p po =
     queueTargets (queueUsersTargets env (tables s) this V) q p po s"

text \<open>
  The middle of \<^verbatim>\<open>updateBasePointer\<close>: the new fact by the kind of the value. \<open>Inr (st, None)\<close>
  is an early return of false. An instruction carries an opcode of its own kind (a cast or
  GEP for \<open>UnaryInst\<close>, a binary opcode for \<open>BinaryOperator\<close>).
\<close>

definition computeNewPB ::
  "SolverEnv \<Rightarrow> IRView \<Rightarrow> LoopInfo \<Rightarrow> InstKinds \<Rightarrow> LoadView \<Rightarrow> State \<Rightarrow> Ctx \<Rightarrow> Value \<Rightarrow> bool \<Rightarrow>
   error + (State \<times> PB option)" where
  "computeNewPB env ir li ik lv st this V finalise =
     (case valueInfo env V of
        IsInstruction (LoadInst p) \<Rightarrow>
          (case tryForwardLoadPB ir ik lv st this V finalise of
             Inl e \<Rightarrow> Inl e
           | Inr (st1, Attempt, r) \<Rightarrow> Inr (st1, r))
      | IsArgument n \<Rightarrow> Inr (st, getArgBasePointer env ir st (getFunctionRoot this) n)
      | IsOtherValue \<Rightarrow> Inl AssertionFailed
      | IsInstruction (UnaryInst opc a) \<Rightarrow>
          (if opc \<in> {GetElementPtr, BitCast, SExt, ZExt, IntToPtr, PtrToInt}
           then (case updateUnaryValSet env ir st this V opc a PointerBase0 of
                   Inl e \<Rightarrow> Inl e
                 | Inr r \<Rightarrow> Inr (st, r))
           else Inr (st, None))
      | IsInstruction (BinaryOperator opc a b) \<Rightarrow>
          (if opc \<in> {Add, Sub, And, Or, Xor}
           then Inr (st, updateBinopValSet (mergeEnv env st) ir this opc a b PointerBase0)
           else Inr (st, None))
      | IsInstruction (PHINode incoming) \<Rightarrow>
          (case updateHeaderPHIPB ir li st this (getParent (mergeEnv env st) V) incoming of
             InvalidIncomingBlock \<Rightarrow> Inl AssertionFailed
           | HeaderPHI r \<Rightarrow> Inr (st, r)
           | NotHeaderPHI \<Rightarrow>
               (case getMergeBasePointer (mergeEnv env st) this V (PHINode incoming) finalise PointerBase0 of
                  (anyInfo, NewPB) \<Rightarrow> Inr (st, if anyInfo then Some NewPB else None)))
      | IsInstruction (OtherInst opc) \<Rightarrow> Inr (st, None)
      | IsInstruction I \<Rightarrow>
          (case getMergeBasePointer (mergeEnv env st) this V I finalise PointerBase0 of
             (anyInfo, NewPB) \<Rightarrow> Inr (st, if anyInfo then Some NewPB else None)))"

text \<open>
  \<^verbatim>\<open>operator!=\<close> on the facts of the solver: the comparison of the value-set lattice, with
  contexts ordered by their addresses.
\<close>

definition addrVC :: "SolverEnv \<Rightarrow> VC \<Rightarrow> (nat, nat) ValCtx" where
  "addrVC env v =
     \<lparr>first = first v, second = (case second v of None \<Rightarrow> 0 | Some C \<Rightarrow> ctxAddr env C),
      offset = offset v, va_arg = va_arg v\<rparr>"

definition addrPB :: "SolverEnv \<Rightarrow> PB \<Rightarrow> (nat, nat) ValCtx PointerBase" where
  "addrPB env pb = \<lparr>Type = Type pb, Values = map (addrVC env) (Values pb), Overdef = Overdef pb\<rparr>"

definition PointerBase_neq :: "SolverEnv \<Rightarrow> PB \<Rightarrow> PB \<Rightarrow> bool" where
  "PointerBase_neq env PB1 PB2 = (\<not> fst (PointerBase_eq (addrPB env PB1) (addrPB env PB2)))"

definition isSolverOpcode :: "Opcode \<Rightarrow> bool" where
  "isSolverOpcode opc =
     (opc \<in> {GetElementPtr, BitCast, SExt, ZExt, IntToPtr, PtrToInt, Add, Sub, And, Or, Xor,
              PHI, Select, Load, Call})"

text \<open>The status string of a non-load instruction and the store of the new fact.\<close>

definition storeNewPB :: "SolverEnv \<Rightarrow> LoadView \<Rightarrow> State \<Rightarrow> Ctx \<Rightarrow> Value \<Rightarrow> bool \<Rightarrow> PB \<Rightarrow> State" where
  "storeNewPB env lv st this V finalise NewPB =
     (let st1 =
        (case valueInfo env V of
           IsInstruction (LoadInst p) \<Rightarrow> st
         | IsInstruction I \<Rightarrow>
             (if \<not> finalise
              then st\<lparr>optimisticForwardStatus := (optimisticForwardStatus st)
                        (this := (optimisticForwardStatus st this)(V \<mapsto> printPB lv NewPB))\<rparr>
              else st\<lparr>pessimisticForwardStatus := (pessimisticForwardStatus st)
                        (this := (pessimisticForwardStatus st this)(V \<mapsto> printPB lv NewPB))\<rparr>)
         | _ \<Rightarrow> st)
      in st1\<lparr>pointerBases := (pointerBases st1)(this := (pointerBases st1 this)(V \<mapsto> NewPB))\<rparr>)"

text \<open>
  \<^verbatim>\<open>updateBasePointer\<close>: the pass as it is left, and the return value. Its parts, in the
  order of the source: the quick escape for instructions the solver does not handle, the
  escape for values the pessimistic solver has resolved, the old fact, the escape of the
  pessimistic phase ("getting no worse"), the new fact, and the comparison and store.
\<close>

definition unknownInstruction :: "SolverEnv \<Rightarrow> Value \<Rightarrow> bool" where
  "unknownInstruction env V =
     (case valueInfo env V of IsInstruction I \<Rightarrow> \<not> isSolverOpcode (getOpcode I) | _ \<Rightarrow> False)"

definition resolvedAlready :: "SolverEnv \<Rightarrow> IRView \<Rightarrow> Ctx \<Rightarrow> Value \<Rightarrow> bool" where
  "resolvedAlready env ir this V =
     (getLoopContext this = getValueScope env this V \<and> hasResolvedPB env ir this V)"

definition gettingNoWorse :: "bool \<Rightarrow> PB option \<Rightarrow> bool" where
  "gettingNoWorse finalise OldPB =
     (finalise \<and> (case OldPB of None \<Rightarrow> True | Some pb \<Rightarrow> Overdef pb))"

definition differsFromOld :: "SolverEnv \<Rightarrow> PB option \<Rightarrow> PB \<Rightarrow> bool" where
  "differsFromOld env OldPB NewPB =
     (case OldPB of None \<Rightarrow> True | Some pb \<Rightarrow> PointerBase_neq env pb NewPB)"

text \<open>
  \<^verbatim>\<open>NewPB\<close> as the test \<^verbatim>\<open>(!OldPBValid) || OldPB != NewPB\<close> leaves it. \<^verbatim>\<open>operator==\<close> takes both
  operands by reference and sorts their value vectors in place once the flags and the sizes
  agree, so from there on \<^verbatim>\<open>NewPB\<close> is in the order of \<^verbatim>\<open>operator<\<close> on \<^verbatim>\<open>ValCtx\<close>; \<^verbatim>\<open>OldPB\<close> is a
  copy local to \<^verbatim>\<open>updateBasePointer\<close>. Without an old fact the comparison is not evaluated.
\<close>

definition sortedByAddr :: "SolverEnv \<Rightarrow> VC list \<Rightarrow> VC list" where
  "sortedByAddr env vs = sort_key (\<lambda>v. ValCtx_key (addrVC env v)) vs"

definition comparedWithOld :: "SolverEnv \<Rightarrow> PB option \<Rightarrow> PB \<Rightarrow> PB" where
  "comparedWithOld env OldPB NewPB =
     (case OldPB of
        None \<Rightarrow> NewPB
      | Some Old \<Rightarrow>
          (if Overdef Old \<noteq> Overdef NewPB then NewPB
           else if Overdef Old then NewPB
           else if length (Values Old) \<noteq> length (Values NewPB) then NewPB
           else NewPB\<lparr>Values := sortedByAddr env (Values NewPB)\<rparr>))"

definition settleNewPB ::
  "SolverEnv \<Rightarrow> LoadView \<Rightarrow> Solver \<Rightarrow> State \<Rightarrow> Ctx \<Rightarrow> Value \<Rightarrow> bool \<Rightarrow> PB option \<Rightarrow> PB option \<Rightarrow>
   error + (Solver \<times> bool)" where
  "settleNewPB env lv s st1 this V finalise OldPB r =
     (case r of
        None \<Rightarrow> Inr (s\<lparr>tables := st1\<rparr>, False)
      | Some NewPB \<Rightarrow>
          (if \<not> (Overdef NewPB \<or> Type NewPB \<noteq> ValSetTypeUnknown) then Inl AssertionFailed
           else if differsFromOld env OldPB NewPB
           then
             (case queueUsersUpdatePB env
                     (s\<lparr>tables := storeNewPB env lv st1 this V finalise (comparedWithOld env OldPB NewPB)\<rparr>)
                     this V True False False of
                Inl e \<Rightarrow> Inl e
              | Inr s1 \<Rightarrow> Inr (s1, True))
           else Inr (s\<lparr>tables := st1\<rparr>, False)))"

definition updateBasePointer ::
  "SolverEnv \<Rightarrow> IRView \<Rightarrow> LoopInfo \<Rightarrow> InstKinds \<Rightarrow> LoadView \<Rightarrow> Solver \<Rightarrow> Ctx \<Rightarrow> Value \<Rightarrow> bool \<Rightarrow>
   error + (Solver \<times> bool)" where
  "updateBasePointer env ir li ik lv s this V finalise =
     (if unknownInstruction env V then Inr (s, False)
      else if resolvedAlready env ir this V then Inr (s, False)
      else if gettingNoWorse finalise (getPointerBaseFalling ir (tables s) this V) then Inr (s, False)
      else
        (case computeNewPB env ir li ik lv (tables s) this V finalise of
           Inl e \<Rightarrow> Inl e
         | Inr (st1, r) \<Rightarrow>
             settleNewPB env lv s st1 this V finalise (getPointerBaseFalling ir (tables s) this V) r))"



definition consumeQueue :: "Solver \<Rightarrow> VC list" where
  "consumeQueue s = (if PBProduceQ s then PBQueue2 s else PBQueue1 s)"

definition produceQueue :: "Solver \<Rightarrow> VC list" where
  "produceQueue s = (if PBProduceQ s then PBQueue1 s else PBQueue2 s)"






text \<open>
  The measure of the termination argument: the height of a stored fact in the lattice
  (absent, then a set by its size up to the cap, then overdefined), what a considered value
  still has above it, and the sum over the values under consideration.
\<close>

definition rankPB :: "PB \<Rightarrow> nat" where
  "rankPB pb = (if Overdef pb then PBMAX + 1 else min PBMAX (card (set (Values pb))))"

definition localRank :: "State \<Rightarrow> VC \<Rightarrow> nat" where
  "localRank st vc =
     (case second vc of
        None \<Rightarrow> 0
      | Some C \<Rightarrow> (case pointerBases st C (first vc) of None \<Rightarrow> 0 | Some pb \<Rightarrow> Suc (rankPB pb)))"

definition headroom :: "Solver \<Rightarrow> nat" where
  "headroom s = (\<Sum>vc \<in> dom (PBsConsideredThisRun s). (PBMAX + 2) - localRank (tables s) vc)"


text \<open>What a call of the transfer function keeps fixed in the pass: all but the produce queue,
  which may grow, and the tables.\<close>

definition sameButProduce :: "Solver \<Rightarrow> Solver \<Rightarrow> bool" where
  "sameButProduce s s1 =
     (PBsConsideredThisRun s1 = PBsConsideredThisRun s \<and> PBProduceQ s1 = PBProduceQ s
      \<and> consumeQueue s1 = consumeQueue s \<and> (\<exists>xs. produceQueue s1 = produceQueue s @ xs))"


section \<open>Two programs for the solver\<close>

subsection \<open>A peeled loop with a nested loop\<close>



















subsection \<open>Two PHIs in the root context\<close>










section \<open>Properties of the lattice operations\<close>

lemma insert_PB_Type [simp]: "Type (insert_PB pb v) = Type pb"
  by (simp add: insert_PB_def setOverdef_def)

lemma insert_PB_new:
  assumes "\<not> Overdef r" "v \<notin> set (Values r)"
  shows "insert_PB r v = (if length (Values r) < PBMAX then r\<lparr>Values := Values r @ [v]\<rparr> else setOverdef r)"
proof -
  have "count_list (Values r) v = 0" using assms(2) by (simp add: count_list_0_iff)
  then show ?thesis using assms(1) by (simp add: insert_PB_def)
qed

lemma insert_PB_old:
  assumes "v \<in> set (Values r)"
  shows "insert_PB r v = r"
proof -
  have "count_list (Values r) v \<noteq> 0" using assms by (simp add: count_list_0_iff)
  then show ?thesis by (simp add: insert_PB_def)
qed

lemma capped_union_insert:
  assumes "finite S" "capped_union S r"
  shows "capped_union (insert v S) (insert_PB r v)"
proof (cases "card S \<le> PBMAX")
  case False
  with assms have od: "Overdef r" "Values r = []" by (simp_all add: capped_union_def)
  have "card S \<le> card (insert v S)" using assms(1) by (simp add: card_insert_le)
  with False have "\<not> card (insert v S) \<le> PBMAX" by linarith
  with od show ?thesis by (simp add: capped_union_def insert_PB_def)
next
  case True
  with assms have r: "\<not> Overdef r" "set (Values r) = S" "distinct (Values r)"
    by (simp_all add: capped_union_def)
  have len: "length (Values r) = card S" using distinct_card[OF r(3)] r(2) by simp
  show ?thesis
  proof (cases "v \<in> S")
    case True
    then have "v \<in> set (Values r)" using r(2) by simp
    then have "insert_PB r v = r" by (rule insert_PB_old)
    moreover have "insert v S = S" using True by blast
    ultimately show ?thesis using assms(2) by simp
  next
    case False
    then have "v \<notin> set (Values r)" using r(2) by simp
    with r(1) have new: "insert_PB r v = (if length (Values r) < PBMAX then r\<lparr>Values := Values r @ [v]\<rparr> else setOverdef r)"
      by (rule insert_PB_new)
    have card: "card (insert v S) = Suc (card S)" using False assms(1) by simp
    show ?thesis
    proof (cases "length (Values r) < PBMAX")
      case True
      then have "card (insert v S) \<le> PBMAX" using card len by simp
      moreover have "set (Values r @ [v]) = insert v S" using r(2) by simp
      moreover have "distinct (Values r @ [v])" using r(2,3) False by simp
      ultimately show ?thesis using new True r(1) by (simp add: capped_union_def)
    next
      case False
      then have "\<not> card (insert v S) \<le> PBMAX" using card len by simp
      then show ?thesis using new False by (simp add: capped_union_def setOverdef_def)
    qed
  qed
qed

lemma capped_union_Overdef:
  assumes "finite S'" "capped_union S r" "Overdef r" "S \<subseteq> S'"
  shows "capped_union S' r"
proof -
  from assms(2,3) have big: "\<not> card S \<le> PBMAX" and v: "Values r = []"
    by (auto simp: capped_union_def split: if_splits)
  have "card S \<le> card S'" using assms(1,4) by (rule card_mono)
  with big have "\<not> card S' \<le> PBMAX" by linarith
  with v assms(3) show ?thesis by (simp add: capped_union_def)
qed

lemma capped_union_merge_loop:
  assumes "finite S" "capped_union S r"
  shows "capped_union (S \<union> set vs) (merge_loop r vs)"
  using assms
proof (induction vs arbitrary: S r)
  case Nil
  then show ?case by simp
next
  case (Cons v vs)
  show ?case
  proof (cases "Overdef r")
    case True
    have "capped_union (S \<union> set (v # vs)) r"
    proof (rule capped_union_Overdef[OF _ Cons.prems(2) True])
      show "S \<subseteq> S \<union> set (v # vs)" by (rule Un_upper1)
      show "finite (S \<union> set (v # vs))" using Cons.prems(1) by simp
    qed
    then show ?thesis using True by simp
  next
    case False
    have "capped_union (insert v S) (insert_PB r v)"
      using Cons.prems by (rule capped_union_insert)
    moreover have "finite (insert v S)" using Cons.prems(1) by simp
    ultimately have "capped_union (insert v S \<union> set vs) (merge_loop (insert_PB r v) vs)"
      by (rule Cons.IH[rotated])
    then show ?thesis using False by simp
  qed
qed

lemma merge_loop_Type [simp]: "Type (merge_loop pb vs) = Type pb"
  by (induction vs arbitrary: pb) auto

lemma capped_union_Type_update: "capped_union S (r\<lparr>Type := T\<rparr>) = capped_union S r"
  by (simp add: capped_union_def)

lemma capped_union_apply_op:
  assumes "finite S" "capped_union S r" "op_admissible (Type r) x"
  shows "capped_union (S \<union> op_candidates x) (apply_op r x) \<and> Type (apply_op r x) = Type r"
proof (cases x)
  case (OpInsert v)
  then show ?thesis using assms capped_union_insert[of S r v] by simp
next
  case (OpMerge b)
  then have b: "\<not> Overdef b" "Type b = Type r" using assms(3) by simp_all
  then have "merge r b = merge_loop (r\<lparr>Type := Type b\<rparr>) (Values b)" by (simp add: merge_def)
  moreover have "capped_union (S \<union> set (Values b)) (merge_loop (r\<lparr>Type := Type b\<rparr>) (Values b))"
    using capped_union_merge_loop[OF assms(1), of "r\<lparr>Type := Type b\<rparr>" "Values b"] assms(2)
    by (simp add: capped_union_Type_update)
  ultimately show ?thesis using OpMerge b by simp
qed

lemma capped_union_apply_ops:
  assumes "finite S" "capped_union S r" "\<forall>x \<in> set ops. op_admissible (Type r) x"
  shows "capped_union (S \<union> \<Union> (op_candidates ` set ops)) (foldl apply_op r ops)"
  using assms
proof (induction ops arbitrary: S r)
  case Nil
  then show ?case by simp
next
  case (Cons x ops)
  have step: "capped_union (S \<union> op_candidates x) (apply_op r x)" "Type (apply_op r x) = Type r"
    using capped_union_apply_op[of S r x] Cons.prems by simp_all
  have fin: "finite (S \<union> op_candidates x)" using Cons.prems(1) by (cases x) simp_all
  have "capped_union ((S \<union> op_candidates x) \<union> \<Union> (op_candidates ` set ops)) (foldl apply_op (apply_op r x) ops)"
    using Cons.IH[OF fin step(1)] Cons.prems(3) step(2) by simp
  moreover have "(S \<union> op_candidates x) \<union> \<Union> (op_candidates ` set ops) = S \<union> \<Union> (op_candidates ` set (x # ops))"
    by auto
  ultimately show ?case by simp
qed


subsection \<open>Insert and merge under the cap\<close>

text \<open>
  Claim C2. Starting from a non-overdefined receiver without duplicates and at most
  \<open>PBMAX\<close> values, after any run of \<^verbatim>\<open>insert\<close> calls and of \<^verbatim>\<open>merge\<close> calls with
  non-overdefined operands of the receiver's type, the receiver holds exactly the union of
  all candidates while that union has at most \<open>PBMAX = 16\<close> members, and is overdefined
  with an empty value list as soon as the union has more: never a truncated subset.
\<close>

theorem C2_capped_union_of_inserts_and_merges:
  assumes "\<not> Overdef a" "distinct (Values a)" "length (Values a) \<le> PBMAX"
    and "\<forall>x \<in> set ops. op_admissible (Type a) x"
  shows "capped_union (set (Values a) \<union> \<Union> (op_candidates ` set ops)) (foldl apply_op a ops)"
proof -
  have "card (set (Values a)) \<le> PBMAX"
    using assms(2,3) by (simp add: distinct_card)
  then have "capped_union (set (Values a)) a"
    using assms(1,2) by (simp add: capped_union_def)
  then show ?thesis
    using assms(4) by (intro capped_union_apply_ops) simp_all
qed

theorem C2_witness:
  "(let a = (PointerBase1 ValSetTypePB :: nat PointerBase);
        ops = [OpInsert 1, OpInsert 2, OpMerge (get_typed 3 ValSetTypePB), OpInsert 1]
    in \<not> Overdef a \<and> distinct (Values a) \<and> length (Values a) \<le> PBMAX
       \<and> list_all (op_admissible (Type a)) ops
       \<and> capped_union {1, 2, 3} (foldl apply_op a ops)
       \<and> Values (foldl apply_op a ops) = [1, 2, 3])
   \<and> (let a = (PointerBase1 ValSetTypeScalar :: nat PointerBase);
            ops = map OpInsert [0,1,2,3,4,5,6,7,8,9,10,11,12,13,14,15,16]
        in capped_union {0,1,2,3,4,5,6,7,8,9,10,11,12,13,14,15,16} (foldl apply_op a ops)
           \<and> Overdef (foldl apply_op a ops) \<and> Values (foldl apply_op a ops) = [])"
proof -
  let ?a = "PointerBase1 ValSetTypePB :: nat PointerBase"
  let ?ops = "[OpInsert 1, OpInsert 2, OpMerge (get_typed 3 ValSetTypePB), OpInsert (1::nat)]"
  have h: "\<not> Overdef ?a" "distinct (Values ?a)" "length (Values ?a) \<le> PBMAX"
    "\<forall>x \<in> set ?ops. op_admissible (Type ?a) x"
    by (simp_all add: PointerBase1_def PBMAX_def get_typed_def insert_PB_def)
  have 1: "capped_union {1, 2, 3} (foldl apply_op ?a ?ops)"
    using C2_capped_union_of_inserts_and_merges[OF h] by (simp add: PointerBase1_def get_typed_def insert_PB_def PBMAX_def insert_commute)
  let ?b = "PointerBase1 ValSetTypeScalar :: nat PointerBase"
  let ?ops2 = "map OpInsert [0,1,2,3,4,5,6,7,8,9,10,11,12,13,14,15,16::nat]"
  have h2: "\<not> Overdef ?b" "distinct (Values ?b)" "length (Values ?b) \<le> PBMAX"
    "\<forall>x \<in> set ?ops2. op_admissible (Type ?b) x"
    by (simp_all add: PointerBase1_def PBMAX_def)
  have 2: "capped_union {0,1,2,3,4,5,6,7,8,9,10,11,12,13,14,15,16} (foldl apply_op ?b ?ops2)"
    using C2_capped_union_of_inserts_and_merges[OF h2] by (simp add: PointerBase1_def insert_commute)
  have 3: "Values (foldl apply_op ?a ?ops) = [1, 2, 3]"
    by (simp add: PointerBase1_def get_typed_def insert_PB_def PBMAX_def merge_def isInitialised_def)
  have 4: "Overdef (foldl apply_op ?b ?ops2) \<and> Values (foldl apply_op ?b ?ops2) = []"
    by (simp add: PointerBase1_def insert_PB_def PBMAX_def setOverdef_def)
  show ?thesis using h 1 2 3 4 by (simp add: list_all_iff Let_def)
qed

subsection \<open>The cases of merge\<close>

text \<open>
  Merging an initialised receiver with an uninitialised operand of another type: the
  result is overdefined and the receiver's value list is lost.
\<close>

theorem C3_counterexample:
  "(let a = get_typed (7::nat) ValSetTypePB; b = (PointerBase0 :: nat PointerBase)
    in isInitialised a \<and> \<not> isInitialised b \<and> \<not> Overdef a \<and> \<not> Overdef b \<and> Type b \<noteq> Type a
       \<and> Values a = [7] \<and> Overdef (merge a b) \<and> Values (merge a b) = [])"
  by (simp add: get_typed_def PointerBase1_def PointerBase0_def insert_PB_def PBMAX_def
      isInitialised_def merge_def setOverdef_def)

lemma merge_Overdef_either: "Overdef a \<or> Overdef b \<Longrightarrow> Overdef (merge a b)"
proof -
  have "Overdef (merge_loop pb vs)" if "Overdef pb" for pb :: "'a PointerBase" and vs
    using that by (cases vs) simp_all
  then show "Overdef a \<or> Overdef b \<Longrightarrow> Overdef (merge a b)"
    by (auto simp: merge_def setOverdef_def)
qed

lemma merge_type_clash:
  "isInitialised a \<Longrightarrow> Type a \<noteq> Type b \<Longrightarrow> Overdef (merge a b) \<and> Values (merge a b) = []"
  by (auto simp: merge_def setOverdef_def)

lemma merge_capped_union:
  assumes "\<not> Overdef a" "\<not> Overdef b" "distinct (Values a)" "length (Values a) \<le> PBMAX"
    and "Type a = Type b \<or> \<not> isInitialised a"
  shows "capped_union (set (Values a) \<union> set (Values b)) (merge a b) \<and> Type (merge a b) = Type b"
proof -
  have m: "merge a b = merge_loop (a\<lparr>Type := Type b\<rparr>) (Values b)"
    using assms(2,5) by (auto simp: merge_def)
  have "card (set (Values a)) \<le> PBMAX" using assms(3,4) by (simp add: distinct_card)
  then have "capped_union (set (Values a)) (a\<lparr>Type := Type b\<rparr>)"
    using assms(1,3) by (simp add: capped_union_def)
  then have "capped_union (set (Values a) \<union> set (Values b)) (merge_loop (a\<lparr>Type := Type b\<rparr>) (Values b))"
    by (intro capped_union_merge_loop) simp_all
  then show ?thesis using m by simp
qed

text \<open>
  Claim C3, as the code has it. \<^verbatim>\<open>a.merge(b)\<close> is overdefined when either side is
  overdefined; it is overdefined (with an emptied value list) when the types differ and the
  receiver \<open>a\<close> is initialised, whether or not \<open>b\<close> is; otherwise, for a receiver without
  duplicates and within the cap, it is the capped union of both value lists and takes the
  type of \<open>b\<close>. So an uninitialised receiver adopts the other side's type and values.
\<close>

theorem C3_merge_cases:
  "(Overdef a \<or> Overdef b \<longrightarrow> Overdef (merge a b))
   \<and> (isInitialised a \<and> Type a \<noteq> Type b \<longrightarrow> Overdef (merge a b) \<and> Values (merge a b) = [])
   \<and> (\<not> Overdef a \<and> \<not> Overdef b \<and> distinct (Values a) \<and> length (Values a) \<le> PBMAX
        \<and> (Type a = Type b \<or> \<not> isInitialised a)
      \<longrightarrow> capped_union (set (Values a) \<union> set (Values b)) (merge a b) \<and> Type (merge a b) = Type b)"
  using merge_Overdef_either[of a b] merge_type_clash[of a b] merge_capped_union[of a b]
  by simp

theorem C3_witness:
  "(let a = get_typed (1::nat) ValSetTypePB; b = getOverdef
    in (Overdef a \<or> Overdef b) \<and> Overdef (merge a b))
   \<and> (let a = get_typed (1::nat) ValSetTypePB; b = get_typed 2 ValSetTypeScalar
       in isInitialised a \<and> Type a \<noteq> Type b \<and> Overdef (merge a b) \<and> Values (merge a b) = [])
   \<and> (let a = get_typed (1::nat) ValSetTypePB; b = get_typed 2 ValSetTypePB
       in \<not> Overdef a \<and> \<not> Overdef b \<and> distinct (Values a) \<and> length (Values a) \<le> PBMAX
          \<and> Type a = Type b
          \<and> capped_union {1, 2} (merge a b) \<and> Type (merge a b) = ValSetTypePB)
   \<and> (let a = (PointerBase0 :: nat PointerBase); b = get_typed 2 ValSetTypeScalar
       in \<not> Overdef a \<and> \<not> Overdef b \<and> Type a \<noteq> Type b \<and> \<not> isInitialised a
          \<and> capped_union {2} (merge a b) \<and> Type (merge a b) = ValSetTypeScalar)"
proof -
  note defs = get_typed_def PointerBase1_def PointerBase0_def PointerBase2_def getOverdef_def
    insert_PB_def PBMAX_def isInitialised_def
  have 1: "Overdef (merge (get_typed (1::nat) ValSetTypePB) getOverdef)"
    using C3_merge_cases[of "get_typed (1::nat) ValSetTypePB" getOverdef]
    by (simp add: defs)
  have 2: "Overdef (merge (get_typed (1::nat) ValSetTypePB) (get_typed 2 ValSetTypeScalar))
      \<and> Values (merge (get_typed (1::nat) ValSetTypePB) (get_typed 2 ValSetTypeScalar)) = []"
    using C3_merge_cases[of "get_typed (1::nat) ValSetTypePB" "get_typed 2 ValSetTypeScalar"]
    by (simp add: defs)
  have 3: "capped_union {1, 2} (merge (get_typed (1::nat) ValSetTypePB) (get_typed 2 ValSetTypePB))
      \<and> Type (merge (get_typed (1::nat) ValSetTypePB) (get_typed 2 ValSetTypePB)) = ValSetTypePB"
    using C3_merge_cases[of "get_typed (1::nat) ValSetTypePB" "get_typed 2 ValSetTypePB"]
    by (simp add: defs insert_commute)
  have 4: "capped_union {2} (merge (PointerBase0 :: nat PointerBase) (get_typed 2 ValSetTypeScalar))
      \<and> Type (merge (PointerBase0 :: nat PointerBase) (get_typed 2 ValSetTypeScalar)) = ValSetTypeScalar"
    using C3_merge_cases[of "PointerBase0 :: nat PointerBase" "get_typed 2 ValSetTypeScalar"]
    by (simp add: defs)
  show ?thesis using 1 2 3 4 by (simp add: defs Let_def)
qed

subsection \<open>Equality of PointerBases\<close>

lemma ValCtx_less_key: "ValCtx_less V1 V2 \<longleftrightarrow> ValCtx_key V1 < ValCtx_key V2"
  by (auto simp: ValCtx_less_def ValCtx_key_def)

lemma ValCtx_key_inj: "inj ValCtx_key"
proof (rule injI)
  fix V1 V2 :: "('a, 'b) ValCtx"
  assume "ValCtx_key V1 = ValCtx_key V2"
  then show "V1 = V2" by (cases V1, cases V2) (simp add: ValCtx_key_def)
qed

lemma std_sort_mset [simp]: "mset (std_sort xs) = mset xs"
  by (simp add: std_sort_def)

lemma std_sort_ascending: "sorted_wrt (\<lambda>a b. ValCtx_less a b \<or> a = b) (std_sort xs)"
proof -
  have "sorted (map ValCtx_key (std_sort xs))"
    by (simp add: std_sort_def)
  then have "sorted_wrt (\<lambda>a b. ValCtx_key a \<le> ValCtx_key b) (std_sort xs)"
    by (simp add: sorted_wrt_map)
  moreover have "(ValCtx_key a \<le> ValCtx_key b) = (ValCtx_less a b \<or> a = b)" for a b :: "('a, 'b) ValCtx"
    using ValCtx_key_inj[THEN injD, of a b] by (auto simp: ValCtx_less_key le_less)
  ultimately show ?thesis by simp
qed

lemma std_sort_eq_iff: "std_sort xs = std_sort ys \<longleftrightarrow> mset xs = mset ys"
proof
  assume "std_sort xs = std_sort ys"
  then have "mset (std_sort xs) = mset (std_sort ys)" by simp
  then show "mset xs = mset ys" by simp
next
  assume m: "mset xs = mset ys"
  show "std_sort xs = std_sort ys"
    unfolding std_sort_def
  proof (rule sort_key_inj_key_eq)
    show "mset xs = mset (sort_key ValCtx_key ys)" using m by simp
    show "inj_on ValCtx_key (set xs)" using ValCtx_key_inj by (rule inj_on_subset) simp
    show "sorted (map ValCtx_key (sort_key ValCtx_key ys))" by simp
  qed
qed

lemma values_agree_eq: "length xs = length ys \<Longrightarrow> values_agree xs ys \<longleftrightarrow> xs = ys"
  by (induction xs ys rule: list_induct2) auto

lemma std_sort_length [simp]: "length (std_sort xs) = length xs"
  by (simp add: std_sort_def)

lemma PointerBase_eq_verdict:
  "fst (PointerBase_eq PB1 PB2) \<longleftrightarrow>
     Overdef PB1 = Overdef PB2 \<and> (Overdef PB1 \<or> mset (Values PB1) = mset (Values PB2))"
proof (cases "length (Values PB1) = length (Values PB2)")
  case True
  then show ?thesis
    by (simp add: PointerBase_eq_def Let_def values_agree_eq std_sort_eq_iff)
next
  case False
  then have "mset (Values PB1) \<noteq> mset (Values PB2)" by (metis size_mset)
  with False show ?thesis by (simp add: PointerBase_eq_def)
qed

lemma insert_PB_distinct: "distinct (Values pb) \<Longrightarrow> distinct (Values (insert_PB pb v))"
  by (simp add: insert_PB_def setOverdef_def count_list_0_iff)

lemma merge_loop_distinct: "distinct (Values pb) \<Longrightarrow> distinct (Values (merge_loop pb vs))"
  by (induction vs arbitrary: pb) (simp_all add: insert_PB_distinct)

lemma merge_distinct: "distinct (Values pb) \<Longrightarrow> distinct (Values (merge pb b))"
  by (simp add: merge_def setOverdef_def merge_loop_distinct)

text \<open>
  Claim C10. \<^verbatim>\<open>operator==\<close> on PointerBase never looks at the type tag: two overdefined
  values are equal; two non-overdefined values (whose value lists are duplicate-free, as
  \<^verbatim>\<open>insert\<close> keeps them) are equal exactly when they hold the same set of ValCtxs, whatever
  their types and the order of their lists; and once the flags and sizes agree both operands
  are left sorted ascending by \<^verbatim>\<open>operator<\<close>.
\<close>

theorem C10_equality_ignores_Type:
  "(Overdef PB1 \<and> Overdef PB2 \<longrightarrow> fst (PointerBase_eq PB1 PB2))
   \<and> (\<not> Overdef PB1 \<and> \<not> Overdef PB2 \<and> distinct (Values PB1) \<and> distinct (Values PB2)
        \<longrightarrow> (fst (PointerBase_eq PB1 PB2) \<longleftrightarrow> set (Values PB1) = set (Values PB2)))
   \<and> fst (PointerBase_eq (PB1\<lparr>Type := T1\<rparr>) (PB2\<lparr>Type := T2\<rparr>)) = fst (PointerBase_eq PB1 PB2)
   \<and> (\<not> Overdef PB1 \<and> \<not> Overdef PB2 \<and> length (Values PB1) = length (Values PB2)
        \<longrightarrow> snd (PointerBase_eq PB1 PB2)
              = (PB1\<lparr>Values := std_sort (Values PB1)\<rparr>, PB2\<lparr>Values := std_sort (Values PB2)\<rparr>)
            \<and> sorted_wrt (\<lambda>a b. ValCtx_less a b \<or> a = b) (std_sort (Values PB1))
            \<and> sorted_wrt (\<lambda>a b. ValCtx_less a b \<or> a = b) (std_sort (Values PB2)))"
proof -
  have 1: "Overdef PB1 \<and> Overdef PB2 \<longrightarrow> fst (PointerBase_eq PB1 PB2)"
    by (simp add: PointerBase_eq_verdict)
  have 2: "\<not> Overdef PB1 \<and> \<not> Overdef PB2 \<and> distinct (Values PB1) \<and> distinct (Values PB2)
        \<longrightarrow> (fst (PointerBase_eq PB1 PB2) \<longleftrightarrow> set (Values PB1) = set (Values PB2))"
    by (auto simp: PointerBase_eq_verdict set_eq_iff_mset_eq_distinct)
  have 3: "fst (PointerBase_eq (PB1\<lparr>Type := T1\<rparr>) (PB2\<lparr>Type := T2\<rparr>)) = fst (PointerBase_eq PB1 PB2)"
    by (simp add: PointerBase_eq_verdict)
  have 4: "\<not> Overdef PB1 \<and> \<not> Overdef PB2 \<and> length (Values PB1) = length (Values PB2)
        \<longrightarrow> snd (PointerBase_eq PB1 PB2)
              = (PB1\<lparr>Values := std_sort (Values PB1)\<rparr>, PB2\<lparr>Values := std_sort (Values PB2)\<rparr>)"
    by (simp add: PointerBase_eq_def Let_def)
  show ?thesis using 1 2 3 4 std_sort_ascending by blast
qed

theorem C10_witness:
  "(let PB1 = \<lparr>Type = ValSetTypeScalar, Values = [make_vc (9::nat) (4::nat), make_vc (5::nat) (4::nat)], Overdef = False\<rparr>;
        PB2 = \<lparr>Type = ValSetTypePB, Values = [make_vc (5::nat) (4::nat), make_vc (9::nat) (4::nat)], Overdef = False\<rparr>
    in \<not> Overdef PB1 \<and> \<not> Overdef PB2 \<and> distinct (Values PB1) \<and> distinct (Values PB2)
       \<and> length (Values PB1) = length (Values PB2)
       \<and> set (Values PB1) = set (Values PB2)
       \<and> PointerBase_eq PB1 PB2 = (True, PB1\<lparr>Values := [make_vc (5::nat) (4::nat), make_vc (9::nat) (4::nat)]\<rparr>, PB2))
   \<and> (let PB1 = \<lparr>Type = ValSetTypeScalar, Values = [], Overdef = True\<rparr>;
            PB2 = \<lparr>Type = ValSetTypePB, Values = [], Overdef = True\<rparr> :: (nat, nat) ValCtx PointerBase
       in Overdef PB1 \<and> Overdef PB2 \<and> fst (PointerBase_eq PB1 PB2))"
proof -
  let ?PB1 = "\<lparr>Type = ValSetTypeScalar, Values = [make_vc (9::nat) (4::nat), make_vc (5::nat) (4::nat)], Overdef = False\<rparr>"
  let ?PB2 = "\<lparr>Type = ValSetTypePB, Values = [make_vc (5::nat) (4::nat), make_vc (9::nat) (4::nat)], Overdef = False\<rparr>"
  let ?O1 = "\<lparr>Type = ValSetTypeScalar, Values = [], Overdef = True\<rparr> :: (nat, nat) ValCtx PointerBase"
  let ?O2 = "\<lparr>Type = ValSetTypePB, Values = [], Overdef = True\<rparr> :: (nat, nat) ValCtx PointerBase"
  have s1: "std_sort [make_vc (9::nat) (4::nat), make_vc (5::nat) (4::nat)] = [make_vc (5::nat) (4::nat), make_vc (9::nat) (4::nat)]"
    and s2: "std_sort [make_vc (5::nat) (4::nat), make_vc (9::nat) (4::nat)] = [make_vc (5::nat) (4::nat), make_vc (9::nat) (4::nat)]"
    by (simp_all add: std_sort_def make_vc_def ValCtx_key_def)
  have d: "make_vc (9::nat) (4::nat) \<noteq> make_vc (5::nat) (4::nat)" by (simp add: make_vc_def)
  have seteq: "set (Values ?PB1) = set (Values ?PB2)" by (simp add: insert_commute)
  note inst = C10_equality_ignores_Type[of ?PB1 ?PB2 ValSetTypeScalar ValSetTypePB]
  have f: "fst (PointerBase_eq ?PB1 ?PB2)"
    using inst[THEN conjunct2, THEN conjunct1] d seteq by simp
  have g: "snd (PointerBase_eq ?PB1 ?PB2) = (?PB1\<lparr>Values := [make_vc (5::nat) (4::nat), make_vc (9::nat) (4::nat)]\<rparr>, ?PB2)"
    using inst[THEN conjunct2, THEN conjunct2, THEN conjunct2] by (simp add: s1 s2)
  have a: "PointerBase_eq ?PB1 ?PB2 = (True, ?PB1\<lparr>Values := [make_vc (5::nat) (4::nat), make_vc (9::nat) (4::nat)]\<rparr>, ?PB2)"
    using f g by (cases "PointerBase_eq ?PB1 ?PB2") simp
  have b: "fst (PointerBase_eq ?O1 ?O2)"
    using C10_equality_ignores_Type[of ?O1 ?O2] by simp
  show ?thesis using a b d seteq by (simp add: Let_def)
qed

section \<open>Properties of the predecessor merge\<close>

lemma mergeLoop_Overdef [simp]: "Overdef pb \<Longrightarrow> mergeLoop env fin preds any pb = (any, pb)"
  by (cases preds) auto

lemma mergeFacts_Overdef [simp]: "Overdef pb \<Longrightarrow> mergeFacts pb fs = pb"
  by (cases fs) auto

lemma availableFacts_Nil [simp]: "availableFacts env [] = []"
  by (simp add: availableFacts_def map_filter_simps)






lemma merge_into_empty: "merge PointerBase0 (get_typed p T) = get_typed p T"
  by (simp add: merge_def PointerBase0_def get_typed_def PointerBase1_def insert_PB_def PBMAX_def
      isInitialised_def)




section \<open>Properties of the binary-operator transfer\<close>

lemma binopInner_mergeFacts:
  "binopInner ir opc v1 vs2 pb = mergeFacts pb (map (foldPair ir opc v1) vs2)"
  by (induction vs2 arbitrary: pb) simp_all

lemma mergeFacts_append:
  "mergeFacts pb (fs @ gs) = mergeFacts (mergeFacts pb fs) gs"
proof (induction fs arbitrary: pb)
  case Nil
  then show ?case by simp
next
  case (Cons f fs)
  then show ?case by (cases "Overdef pb") simp_all
qed

lemma binopOuter_mergeFacts:
  "binopOuter ir opc vs1 vs2 pb
     = mergeFacts pb (map (\<lambda>(x, y). foldPair ir opc x y) (List.product vs1 vs2))"
proof (induction vs1 arbitrary: pb)
  case Nil
  then show ?case by simp
next
  case (Cons v1 vs1)
  show ?case
  proof (cases "Overdef pb")
    case True
    then show ?thesis by simp
  next
    case False
    then show ?thesis
      using Cons.IH[of "binopInner ir opc v1 vs2 pb"]
      by (simp add: binopInner_mergeFacts mergeFacts_append comp_def)
  qed
qed

lemma mergeFacts_capped_union:
  assumes "finite S" "capped_union S pb"
    and "\<forall>f \<in> set fs. \<not> Overdef f \<and> Type f = T"
    and "Type pb = T \<or> \<not> isInitialised pb"
  shows "capped_union (S \<union> (\<Union>f \<in> set fs. set (Values f))) (mergeFacts pb fs)"
  using assms
proof (induction fs arbitrary: S pb)
  case Nil
  then show ?case by simp
next
  case (Cons f fs)
  let ?U = "S \<union> (\<Union>g \<in> set (f # fs). set (Values g))"
  have finU: "finite ?U" using Cons.prems(1) by simp
  show ?case
  proof (cases "Overdef pb")
    case True
    have "capped_union ?U pb"
      by (rule capped_union_Overdef[OF finU Cons.prems(2) True]) (rule Un_upper1)
    then show ?thesis using True by simp
  next
    case False
    then have pbS: "set (Values pb) = S" "distinct (Values pb)" "card S \<le> PBMAX"
      using Cons.prems(2) by (auto simp: capped_union_def split: if_splits)
    then have len: "length (Values pb) \<le> PBMAX" using distinct_card[of "Values pb"] by simp
    have f: "\<not> Overdef f" "Type f = T" using Cons.prems(3) by simp_all
    have ty: "Type pb = Type f \<or> \<not> isInitialised pb" using Cons.prems(4) f(2) by simp
    have m: "capped_union (S \<union> set (Values f)) (merge pb f)" "Type (merge pb f) = T"
      using merge_capped_union[OF False f(1) pbS(2) len ty] pbS(1) f(2) by simp_all
    have "capped_union ((S \<union> set (Values f)) \<union> (\<Union>g \<in> set fs. set (Values g))) (mergeFacts (merge pb f) fs)"
    proof (rule Cons.IH)
      show "finite (S \<union> set (Values f))" using Cons.prems(1) by simp
      show "capped_union (S \<union> set (Values f)) (merge pb f)" by (rule m(1))
      show "\<forall>g \<in> set fs. \<not> Overdef g \<and> Type g = T" using Cons.prems(3) by simp
      show "Type (merge pb f) = T \<or> \<not> isInitialised (merge pb f)" using m(2) by simp
    qed
    moreover have "(S \<union> set (Values f)) \<union> (\<Union>g \<in> set fs. set (Values g)) = ?U" by auto
    ultimately show ?thesis using False by simp
  qed
qed

lemma cross_product_capped_union:
  assumes "\<forall>x \<in> set xs. \<forall>y \<in> set ys. \<not> Overdef (foldPair ir opc x y) \<and> Type (foldPair ir opc x y) = T"
  shows "capped_union (\<Union>x \<in> set xs. \<Union>y \<in> set ys. set (Values (foldPair ir opc x y)))
           (mergeFacts PointerBase0 (map (\<lambda>(x, y). foldPair ir opc x y) (List.product xs ys)))"
proof -
  let ?fs = "map (\<lambda>(x, y). foldPair ir opc x y) (List.product xs ys)"
  have "capped_union ({} \<union> (\<Union>f \<in> set ?fs. set (Values f))) (mergeFacts (PointerBase0 :: PB) ?fs)"
  proof (rule mergeFacts_capped_union[where T = T])
    show "finite ({} :: VC set)" by simp
    show "capped_union {} (PointerBase0 :: PB)" by (simp add: capped_union_def PointerBase0_def)
    show "\<forall>f \<in> set ?fs. \<not> Overdef f \<and> Type f = T" using assms by auto
    show "Type (PointerBase0 :: PB) = T \<or> \<not> isInitialised (PointerBase0 :: PB)"
      by (simp add: PointerBase0_def isInitialised_def)
  qed
  moreover have "(\<Union>f \<in> set ?fs. set (Values f))
      = (\<Union>x \<in> set xs. \<Union>y \<in> set ys. set (Values (foldPair ir opc x y)))"
    by auto
  ultimately show ?thesis by simp
qed

text \<open>
  Claim C4, as the code has it. For \<^verbatim>\<open>I = opc a b\<close> with \<open>Op1\<close>, \<open>Op2\<close> the operands' facts:
  without any fact there is no result; with two facts of which one is overdefined the result
  is overdefined. Otherwise, when a fact is pointer-typed: for \<open>Add\<close> and \<open>Sub\<close> the result is
  overdefined for two pointer-typed facts and is the pointer-side fact for exactly one; for
  \<open>And\<close>, \<open>Or\<close>, \<open>Xor\<close> (any other opcode) there is no result. Otherwise, for two scalar facts
  the result is the merge, in cross-product order and stopping once overdefined, of the folded
  pairs (a fold that fails counting as overdefined), which for a fresh accumulator and
  scalar fold results is the union of the folded constants under the cap \<open>PBMAX\<close>; and there
  is no result when a fact is neither pointer-typed nor scalar, or the only fact is not
  pointer-typed.
\<close>

theorem C4_updateBinopValSet_cases:
  assumes "getValSetOrReplacement env this a None = Op1"
    and "getValSetOrReplacement env this b None = Op2"
  shows
   "(Op1 = None \<and> Op2 = None \<longrightarrow> updateBinopValSet env ir this opc a b pb = None)
    \<and> (\<forall>p q. Op1 = Some p \<and> Op2 = Some q \<and> (Overdef p \<or> Overdef q)
          \<longrightarrow> updateBinopValSet env ir this opc a b pb = Some getOverdef)
    \<and> (\<forall>p q. Op1 = Some p \<and> Op2 = Some q \<and> \<not> Overdef p \<and> \<not> Overdef q
             \<and> Type p = ValSetTypePB \<and> Type q = ValSetTypePB
          \<longrightarrow> updateBinopValSet env ir this opc a b pb
                = (if opc = Add \<or> opc = Sub then Some getOverdef else None))
    \<and> (\<forall>p q. Op1 = Some p \<and> Op2 = Some q \<and> \<not> Overdef p \<and> \<not> Overdef q
             \<and> Type p = ValSetTypePB \<and> Type q \<noteq> ValSetTypePB
          \<longrightarrow> updateBinopValSet env ir this opc a b pb
                = (if opc = Add \<or> opc = Sub then Some p else None))
    \<and> (\<forall>p q. Op1 = Some p \<and> Op2 = Some q \<and> \<not> Overdef p \<and> \<not> Overdef q
             \<and> Type p \<noteq> ValSetTypePB \<and> Type q = ValSetTypePB
          \<longrightarrow> updateBinopValSet env ir this opc a b pb
                = (if opc = Add \<or> opc = Sub then Some q else None))
    \<and> (\<forall>p. Op1 = Some p \<and> Op2 = None \<and> Type p = ValSetTypePB
          \<longrightarrow> updateBinopValSet env ir this opc a b pb
                = (if opc = Add \<or> opc = Sub then Some p else None))
    \<and> (\<forall>q. Op1 = None \<and> Op2 = Some q \<and> Type q = ValSetTypePB
          \<longrightarrow> updateBinopValSet env ir this opc a b pb
                = (if opc = Add \<or> opc = Sub then Some q else None))
    \<and> (\<forall>p q. Op1 = Some p \<and> Op2 = Some q \<and> \<not> Overdef p \<and> \<not> Overdef q
             \<and> Type p = ValSetTypeScalar \<and> Type q = ValSetTypeScalar
          \<longrightarrow> updateBinopValSet env ir this opc a b pb
                = Some (mergeFacts pb (map (\<lambda>(x, y). foldPair ir opc x y)
                                          (List.product (Values p) (Values q)))))
    \<and> (\<forall>p q. Op1 = Some p \<and> Op2 = Some q \<and> \<not> Overdef p \<and> \<not> Overdef q
             \<and> Type p = ValSetTypeScalar \<and> Type q = ValSetTypeScalar \<and> pb = PointerBase0
             \<and> (\<forall>x \<in> set (Values p). \<forall>y \<in> set (Values q).
                    \<not> Overdef (foldPair ir opc x y) \<and> Type (foldPair ir opc x y) = ValSetTypeScalar)
          \<longrightarrow> (\<exists>r. updateBinopValSet env ir this opc a b pb = Some r
                 \<and> capped_union (\<Union>x \<in> set (Values p). \<Union>y \<in> set (Values q).
                                     set (Values (foldPair ir opc x y))) r))
    \<and> (\<forall>p q. Op1 = Some p \<and> Op2 = Some q \<and> \<not> Overdef p \<and> \<not> Overdef q
             \<and> Type p \<noteq> ValSetTypePB \<and> Type q \<noteq> ValSetTypePB
             \<and> (Type p \<noteq> ValSetTypeScalar \<or> Type q \<noteq> ValSetTypeScalar)
          \<longrightarrow> updateBinopValSet env ir this opc a b pb = None)
    \<and> (\<forall>p. Op1 = Some p \<and> Op2 = None \<and> Type p \<noteq> ValSetTypePB
          \<longrightarrow> updateBinopValSet env ir this opc a b pb = None)
    \<and> (\<forall>q. Op1 = None \<and> Op2 = Some q \<and> Type q \<noteq> ValSetTypePB
          \<longrightarrow> updateBinopValSet env ir this opc a b pb = None)"
  using assms cross_product_capped_union[of _ _ ir opc ValSetTypeScalar]
  by (auto simp: updateBinopValSet_def Let_def PointerBase0_def binopOuter_mergeFacts)

text \<open>
  Two pointer-typed facts under \<open>And\<close> or \<open>Xor\<close> give no result at all rather than overdefined,
  and \<open>Add\<close> of a pointer-typed fact and an overdefined fact is overdefined, not the pointer side.
\<close>

theorem C4_counterexample:
  "(let pA = get_typed (make_vc 100 (Some RootInlineAttempt)) ValSetTypePB;
        pB = get_typed (make_vc 101 (Some RootInlineAttempt)) ValSetTypePB;
        env = \<lparr>edgeIsDead = (\<lambda>c a b. False), blockIsDead = (\<lambda>c b. False),
               getInlineAttempt = (\<lambda>c v. None), getCalledFunction = (\<lambda>c v. []),
               getParent = (\<lambda>v. 0),
               getValSetOrReplacement =
                 (\<lambda>c v u. if v = 1 then Some pA else if v = 2 then Some pB
                          else if v = 3 then Some getOverdef else None)\<rparr>;
        ir = \<lparr>asConstant = (\<lambda>v. Some OtherConstant), isPointerTy = (\<lambda>v. False),
              pointeeIsFunctionTy = (\<lambda>v. False), isAllocaInst = (\<lambda>v. False),
              isNoAliasCall = (\<lambda>v. False), ConstantExpr_get = (\<lambda>opc x y. x + y),
              ConstantFoldConstantExpression = (\<lambda>v. Some v)\<rparr>
    in Type pA = ValSetTypePB \<and> Type pB = ValSetTypePB \<and> \<not> Overdef pA \<and> \<not> Overdef pB
       \<and> updateBinopValSet env ir RootInlineAttempt And 1 2 PointerBase0 = None
       \<and> updateBinopValSet env ir RootInlineAttempt Xor 1 2 PointerBase0 = None
       \<and> Type (getOverdef :: PB) \<noteq> ValSetTypePB
       \<and> updateBinopValSet env ir RootInlineAttempt Add 1 3 PointerBase0 = Some getOverdef
       \<and> pA \<noteq> getOverdef)"
  by (simp add: Let_def updateBinopValSet_def get_typed_def PointerBase1_def insert_PB_def
      PBMAX_def getOverdef_def PointerBase2_def PointerBase0_def)

text \<open>
  A scalar addition over the sets \<open>{10, 20}\<close> and \<open>{7}\<close>, and a subtraction from a pointer.
\<close>

theorem C4_witness:
  "(let pA = get_typed (make_vc 100 (Some RootInlineAttempt)) ValSetTypePB;
        s4 = \<lparr>Type = ValSetTypeScalar, Values = [const_vc 10, const_vc 20], Overdef = False\<rparr>;
        s5 = get_typed (const_vc 7) ValSetTypeScalar;
        env = \<lparr>edgeIsDead = (\<lambda>c a b. False), blockIsDead = (\<lambda>c b. False),
               getInlineAttempt = (\<lambda>c v. None), getCalledFunction = (\<lambda>c v. []),
               getParent = (\<lambda>v. 0),
               getValSetOrReplacement =
                 (\<lambda>c v u. if v = 1 then Some pA else if v = 4 then Some s4
                          else if v = 5 then Some s5 else None)\<rparr>;
        ir = \<lparr>asConstant = (\<lambda>v. Some OtherConstant), isPointerTy = (\<lambda>v. False),
              pointeeIsFunctionTy = (\<lambda>v. False), isAllocaInst = (\<lambda>v. False),
              isNoAliasCall = (\<lambda>v. False), ConstantExpr_get = (\<lambda>opc x y. x + y),
              ConstantFoldConstantExpression = (\<lambda>v. Some v)\<rparr>
    in getValSetOrReplacement env RootInlineAttempt 4 None = Some s4
       \<and> getValSetOrReplacement env RootInlineAttempt 5 None = Some s5
       \<and> \<not> Overdef s4 \<and> \<not> Overdef s5 \<and> Type s4 = ValSetTypeScalar \<and> Type s5 = ValSetTypeScalar
       \<and> updateBinopValSet env ir RootInlineAttempt Add 4 5 PointerBase0
            = Some \<lparr>Type = ValSetTypeScalar, Values = [const_vc 17, const_vc 27], Overdef = False\<rparr>
       \<and> getValSetOrReplacement env RootInlineAttempt 1 None = Some pA \<and> Type pA = ValSetTypePB
       \<and> updateBinopValSet env ir RootInlineAttempt Sub 1 5 PointerBase0 = Some pA)"
proof -
  define pA :: PB where "pA = get_typed (make_vc 100 (Some RootInlineAttempt)) ValSetTypePB"
  define s4 :: PB where "s4 = \<lparr>Type = ValSetTypeScalar, Values = [const_vc 10, const_vc 20], Overdef = False\<rparr>"
  define s5 :: PB where "s5 = get_typed (const_vc 7) ValSetTypeScalar"
  define env where "env = \<lparr>edgeIsDead = (\<lambda>(c::Ctx) (a::nat) (b::nat). False), blockIsDead = (\<lambda>(c::Ctx) (b::nat). False),
               getInlineAttempt = (\<lambda>(c::Ctx) (v::nat). None), getCalledFunction = (\<lambda>(c::Ctx) (v::nat). []),
               getParent = (\<lambda>v::nat. 0),
               getValSetOrReplacement =
                 (\<lambda>(c::Ctx) (v::nat) (u::nat option). if v = 1 then Some pA else if v = 4 then Some s4
                          else if v = 5 then Some s5 else None)\<rparr>"
  define ir where "ir = \<lparr>asConstant = (\<lambda>v::nat. Some OtherConstant), isPointerTy = (\<lambda>v::nat. False),
              pointeeIsFunctionTy = (\<lambda>v::nat. False), isAllocaInst = (\<lambda>v::nat. False),
              isNoAliasCall = (\<lambda>v::nat. False), ConstantExpr_get = (\<lambda>(opc::Opcode) (x::nat) (y::nat). x + y),
              ConstantFoldConstantExpression = (\<lambda>v::nat. Some v)\<rparr>"
  note defs = get_typed_def PointerBase1_def insert_PB_def PBMAX_def PointerBase0_def
  have l1: "getValSetOrReplacement env RootInlineAttempt 1 None = Some pA"
    and l4: "getValSetOrReplacement env RootInlineAttempt 4 None = Some s4"
    and l5: "getValSetOrReplacement env RootInlineAttempt 5 None = Some s5"
    by (simp_all add: env_def)
  have t: "\<not> Overdef s4" "\<not> Overdef s5" "Type s4 = ValSetTypeScalar" "Type s5 = ValSetTypeScalar"
    "Type pA = ValSetTypePB" "\<not> Overdef pA"
    by (simp_all add: s4_def s5_def pA_def defs)
  have fp: "foldPair ir Add (const_vc x) (const_vc 7) = get_typed (const_vc (x + 7)) ValSetTypeScalar" for x
    by (simp add: foldPair_def ir_def isConstantExpr_def PointerBase_get_def const_vc_def make_vc_def)
  have d: "const_vc 27 \<noteq> const_vc 17" by (simp add: const_vc_def make_vc_def)
  have "updateBinopValSet env ir RootInlineAttempt Add 4 5 PointerBase0
      = Some (mergeFacts PointerBase0 (map (\<lambda>(x, y). foldPair ir Add x y)
                                          (List.product (Values s4) (Values s5))))"
    using C4_updateBinopValSet_cases[OF l4 l5, of ir Add PointerBase0] t by simp
  also have "\<dots> = Some \<lparr>Type = ValSetTypeScalar, Values = [const_vc 17, const_vc 27], Overdef = False\<rparr>"
    using d by (simp add: s4_def s5_def defs fp merge_def isInitialised_def count_list_0_iff)
  finally have r1: "updateBinopValSet env ir RootInlineAttempt Add 4 5 PointerBase0
      = Some \<lparr>Type = ValSetTypeScalar, Values = [const_vc 17, const_vc 27], Overdef = False\<rparr>" .
  have r2: "updateBinopValSet env ir RootInlineAttempt Sub 1 5 PointerBase0 = Some pA"
    using C4_updateBinopValSet_cases[OF l1 l5, of ir Sub PointerBase0] t by simp
  show ?thesis
    using l1 l4 l5 t r1 r2
    unfolding pA_def[symmetric] s4_def[symmetric] s5_def[symmetric] env_def[symmetric] ir_def[symmetric] Let_def
    by simp
qed

section \<open>Properties of the header-PHI rule\<close>

text \<open>
  Claim C5. For a PHI in the header block of the loop of a peel iteration,
  \<^verbatim>\<open>updateHeaderPHIPB\<close> answers with the falling lookup of the PHI's incoming value for the
  loop preheader in the parent context when the iteration count is 0, and with the falling
  lookup of the incoming value for the loop latch in iteration \<open>N - 1\<close> of the same peel
  attempt when the count is \<open>N > 0\<close>.
\<close>

theorem C5_header_PHI_sources:
  assumes "getHeader li L = PNParent"
  shows
   "(\<forall>v. getIncomingValueForBlock incoming (getLoopPreheader li L) = Some v \<longrightarrow>
        updateHeaderPHIPB ir li st (PeelIteration parent L 0) PNParent incoming
          = HeaderPHI (getPointerBaseFalling ir st parent v))
    \<and> (\<forall>N v. 0 < N \<and> getIncomingValueForBlock incoming (getLoopLatch li L) = Some v \<longrightarrow>
        updateHeaderPHIPB ir li st (PeelIteration parent L N) PNParent incoming
          = HeaderPHI (getPointerBaseFalling ir st (PeelIteration parent L (N - 1)) v))"
proof (intro conjI allI impI)
  fix v
  assume "getIncomingValueForBlock incoming (getLoopPreheader li L) = Some v"
  then show "updateHeaderPHIPB ir li st (PeelIteration parent L 0) PNParent incoming
          = HeaderPHI (getPointerBaseFalling ir st parent v)"
    using assms by simp
next
  fix N :: nat and v
  assume a: "0 < N \<and> getIncomingValueForBlock incoming (getLoopLatch li L) = Some v"
  then obtain M where "N = Suc M" by (cases N) auto
  then show "updateHeaderPHIPB ir li st (PeelIteration parent L N) PNParent incoming
          = HeaderPHI (getPointerBaseFalling ir st (PeelIteration parent L (N - 1)) v)"
    using assms a by simp
qed

text \<open>
  A loop peeled in the root context: iteration 0 reads the preheader value in the root,
  iteration 1 the latch value stored in iteration 0, iteration 2 finds no fact in iteration 1
  nor above it.
\<close>

theorem C5_witness:
  "(let ir = \<lparr>asConstant = (\<lambda>v. None), isPointerTy = (\<lambda>v. True),
              pointeeIsFunctionTy = (\<lambda>v. False), isAllocaInst = (\<lambda>v. False),
              isNoAliasCall = (\<lambda>v. False), ConstantExpr_get = (\<lambda>opc x y. x),
              ConstantFoldConstantExpression = (\<lambda>v. None)\<rparr>;
        li = \<lparr>getHeader = (\<lambda>l. 50), getLoopPreheader = (\<lambda>l. 40), getLoopLatch = (\<lambda>l. 60)\<rparr>;
        f0 = get_typed (make_vc 100 (Some RootInlineAttempt)) ValSetTypePB;
        f1 = get_typed (make_vc 101 (Some RootInlineAttempt)) ValSetTypePB;
        it0 = PeelIteration RootInlineAttempt 7 0;
        st = emptyState\<lparr>pointerBases :=
               (\<lambda>c. if c = RootInlineAttempt then [10 \<mapsto> f0]
                    else if c = it0 then [11 \<mapsto> f1] else Map.empty)\<rparr>;
        incoming = [(10, 40), (11, 60)]
    in getHeader li 7 = 50
       \<and> getIncomingValueForBlock incoming (getLoopPreheader li 7) = Some 10
       \<and> getIncomingValueForBlock incoming (getLoopLatch li 7) = Some 11
       \<and> updateHeaderPHIPB ir li st it0 50 incoming = HeaderPHI (Some f0)
       \<and> updateHeaderPHIPB ir li st (PeelIteration RootInlineAttempt 7 1) 50 incoming = HeaderPHI (Some f1)
       \<and> updateHeaderPHIPB ir li st (PeelIteration RootInlineAttempt 7 2) 50 incoming = HeaderPHI None)"
proof -
  define ir where "ir = \<lparr>asConstant = (\<lambda>v::nat. None :: Constant option), isPointerTy = (\<lambda>v::nat. True),
              pointeeIsFunctionTy = (\<lambda>v::nat. False), isAllocaInst = (\<lambda>v::nat. False),
              isNoAliasCall = (\<lambda>v::nat. False), ConstantExpr_get = (\<lambda>(opc::Opcode) (x::nat) (y::nat). x),
              ConstantFoldConstantExpression = (\<lambda>v::nat. None :: nat option)\<rparr>"
  define li where "li = \<lparr>getHeader = (\<lambda>l::nat. 50::nat), getLoopPreheader = (\<lambda>l::nat. 40::nat), getLoopLatch = (\<lambda>l::nat. 60::nat)\<rparr>"
  define f0 :: PB where "f0 = get_typed (make_vc 100 (Some RootInlineAttempt)) ValSetTypePB"
  define f1 :: PB where "f1 = get_typed (make_vc 101 (Some RootInlineAttempt)) ValSetTypePB"
  define it0 where "it0 = PeelIteration RootInlineAttempt 7 0"
  define st where "st = emptyState\<lparr>pointerBases :=
               (\<lambda>c. if c = RootInlineAttempt then [10 \<mapsto> f0]
                    else if c = it0 then [11 \<mapsto> f1] else Map.empty)\<rparr>"
  define incoming where "incoming = [(10::nat, 40::nat), (11, 60)]"
  have h: "getHeader li 7 = 50" by (simp add: li_def)
  have i0: "getIncomingValueForBlock incoming (getLoopPreheader li 7) = Some 10"
    and i1: "getIncomingValueForBlock incoming (getLoopLatch li 7) = Some 11"
    by (simp_all add: li_def incoming_def)
  note loc = getPointerBaseLocal_def ir_def isaGlobalValue_def isConstantExpr_def st_def it0_def
  have r0: "updateHeaderPHIPB ir li st it0 50 incoming = HeaderPHI (Some f0)"
    using C5_header_PHI_sources[OF h, THEN conjunct1, rule_format, OF i0, of ir st RootInlineAttempt]
    by (simp add: loc)
  have r1: "updateHeaderPHIPB ir li st (PeelIteration RootInlineAttempt 7 1) 50 incoming = HeaderPHI (Some f1)"
    using C5_header_PHI_sources[OF h, THEN conjunct2, rule_format, of 1 incoming 11 ir st RootInlineAttempt] i1
    by (simp add: loc)
  have r2: "updateHeaderPHIPB ir li st (PeelIteration RootInlineAttempt 7 2) 50 incoming = HeaderPHI None"
    using C5_header_PHI_sources[OF h, THEN conjunct2, rule_format, of 2 incoming 11 ir st RootInlineAttempt] i1
    by (simp add: loc emptyState_def)
  show ?thesis
    using h i0 i1 r0 r1 r2
    unfolding ir_def[symmetric] li_def[symmetric] f0_def[symmetric] f1_def[symmetric]
      it0_def[symmetric] st_def[symmetric] incoming_def[symmetric] Let_def
    by simp
qed

section \<open>Properties of cache invalidation\<close>

lemma removeMemWriterEffect_fields [simp]:
  "failedLFACache (removeMemWriterEffect st C I LI this) = failedLFACache st"
  "defOrClobberCache (removeMemWriterEffect st C I LI this) = defOrClobberCache st"
  "callBlockedPBLoads (removeMemWriterEffect st C I LI this) = callBlockedPBLoads st"
  "CFGDependentPBLoads (removeMemWriterEffect st C I LI this) = CFGDependentPBLoads st"
  "pendingPBChecks (removeMemWriterEffect st C I LI this) = pendingPBChecks st"
  "pointerBases (removeMemWriterEffect st C I LI this) = pointerBases st"
  by (simp_all add: removeMemWriterEffect_def)

lemma zapLoop_fields [simp]:
  "failedLFACache (zapLoop ik this LI es st) = failedLFACache st"
  "defOrClobberCache (zapLoop ik this LI es st) = defOrClobberCache st"
  "callBlockedPBLoads (zapLoop ik this LI es st) = callBlockedPBLoads st"
  "CFGDependentPBLoads (zapLoop ik this LI es st) = CFGDependentPBLoads st"
  "pendingPBChecks (zapLoop ik this LI es st) = pendingPBChecks st"
  "pointerBases (zapLoop ik this LI es st) = pointerBases st"
  by (induction es arbitrary: st; simp split: option.splits)+

lemma removeMemWriterEffect_at:
  "memWriterEffects (removeMemWriterEffect st C J LI this) D I
     = (if C = D \<and> J = I then removeAll (LI, this) (memWriterEffects st D I)
        else memWriterEffects st D I)"
  by (simp add: removeMemWriterEffect_def)

lemma zapLoop_keeps_absent:
  "(LI, this) \<notin> set (memWriterEffects st D I)
   \<Longrightarrow> (LI, this) \<notin> set (memWriterEffects (zapLoop ik this LI es st) D I)"
proof (induction es arbitrary: st)
  case Nil
  then show ?case by simp
next
  case (Cons e es)
  show ?case
  proof (cases "second e")
    case None
    then show ?thesis using Cons by simp
  next
    case (Some C)
    have "(LI, this) \<notin> set (memWriterEffects (removeMemWriterEffect st C (first e) LI this) D I)"
      using Cons.prems by (simp add: removeMemWriterEffect_at)
    then have "(LI, this) \<notin> set (memWriterEffects
        (zapLoop ik this LI es (removeMemWriterEffect st C (first e) LI this)) D I)"
      by (rule Cons.IH)
    moreover have "(LI, this) \<notin> set (memWriterEffects (zapLoop ik this LI es st) D I)"
      using Cons.prems by (rule Cons.IH)
    ultimately show ?thesis using Some by simp
  qed
qed

lemma zapLoop_unlinks:
  "e \<in> set es \<Longrightarrow> second e = Some D \<Longrightarrow> isStoreInst ik (first e)
   \<Longrightarrow> (LI, this) \<notin> set (memWriterEffects (zapLoop ik this LI es st) D (first e))"
proof (induction es arbitrary: st)
  case Nil
  then show ?case by simp
next
  case (Cons x es)
  show ?case
  proof (cases "e = x")
    case True
    have "(LI, this) \<notin> set (memWriterEffects (removeMemWriterEffect st D (first e) LI this) D (first e))"
      by (simp add: removeMemWriterEffect_at)
    then have "(LI, this) \<notin> set (memWriterEffects
        (zapLoop ik this LI es (removeMemWriterEffect st D (first e) LI this)) D (first e))"
      by (rule zapLoop_keeps_absent)
    then show ?thesis using True Cons.prems(2,3) by simp
  next
    case False
    then have "e \<in> set es" using Cons.prems(1) by simp
    then have ih: "(LI, this) \<notin> set (memWriterEffects (zapLoop ik this LI es st') D (first e))" for st'
      using Cons.prems(2,3) by (rule Cons.IH)
    show ?thesis
    proof (cases "second x")
      case None
      then show ?thesis using ih by simp
    next
      case (Some C)
      then show ?thesis using ih by simp
    qed
  qed
qed

lemma zap_failedLFACache:
  "failedLFACache (zapDefOrClobberCache ik st this LI)
     = (failedLFACache st)(this := (failedLFACache st this)(LI := None))"
  by (simp add: zapDefOrClobberCache_def Let_def split: option.splits)

lemma zap_defOrClobberCache:
  "defOrClobberCache (zapDefOrClobberCache ik st this LI)
     = (defOrClobberCache st)(this := (defOrClobberCache st this)(LI := None))"
proof (cases "defOrClobberCache st this LI")
  case None
  then have "(defOrClobberCache st this)(LI := None) = defOrClobberCache st this" by auto
  then show ?thesis using None by (simp add: zapDefOrClobberCache_def Let_def)
next
  case (Some a)
  then show ?thesis by (simp add: zapDefOrClobberCache_def Let_def)
qed

lemma zap_other_fields [simp]:
  "callBlockedPBLoads (zapDefOrClobberCache ik st this LI) = callBlockedPBLoads st"
  "CFGDependentPBLoads (zapDefOrClobberCache ik st this LI) = CFGDependentPBLoads st"
  "pendingPBChecks (zapDefOrClobberCache ik st this LI) = pendingPBChecks st"
  "pointerBases (zapDefOrClobberCache ik st this LI) = pointerBases st"
  by (simp_all add: zapDefOrClobberCache_def Let_def split: option.splits)

lemma zap_memWriterEffects:
  assumes "defOrClobberCache st this LI = Some CEntry" "e \<in> set CEntry" "second e = Some D"
    "isStoreInst ik (first e)"
  shows "(LI, this) \<notin> set (memWriterEffects (zapDefOrClobberCache ik st this LI) D (first e))"
proof -
  let ?st1 = "st\<lparr>failedLFACache := (failedLFACache st)(this := (failedLFACache st this)(LI := None))\<rparr>"
  have "(LI, this) \<notin> set (memWriterEffects (zapLoop ik this LI CEntry ?st1) D (first e))"
    using assms(2,3,4) by (rule zapLoop_unlinks)
  then show ?thesis using assms(1) by (simp add: zapDefOrClobberCache_def Let_def)
qed

lemma zapAndQueue_pending:
  "pendingPBChecks (zapAndQueue ik Loads st)
     = pendingPBChecks st @ map (\<lambda>(LI, IA). make_vc LI (Some IA)) Loads"
  by (induction Loads arbitrary: st) (auto simp: queuePendingPBUpdate_def)

lemma zapAndQueue_fields [simp]:
  "callBlockedPBLoads (zapAndQueue ik Loads st) = callBlockedPBLoads st"
  "CFGDependentPBLoads (zapAndQueue ik Loads st) = CFGDependentPBLoads st"
  "pointerBases (zapAndQueue ik Loads st) = pointerBases st"
  by (induction Loads arbitrary: st; auto simp: queuePendingPBUpdate_def)+

lemma zap_caches_at:
  "failedLFACache (zapDefOrClobberCache ik st C L) IA LI
     = (if IA = C \<and> LI = L then None else failedLFACache st IA LI)"
  "defOrClobberCache (zapDefOrClobberCache ik st C L) IA LI
     = (if IA = C \<and> LI = L then None else defOrClobberCache st IA LI)"
  by (simp_all add: zap_failedLFACache zap_defOrClobberCache)

lemma queuePendingPBUpdate_fields [simp]:
  "failedLFACache (queuePendingPBUpdate st v) = failedLFACache st"
  "defOrClobberCache (queuePendingPBUpdate st v) = defOrClobberCache st"
  "memWriterEffects (queuePendingPBUpdate st v) = memWriterEffects st"
  by (simp_all add: queuePendingPBUpdate_def)

lemma zapAndQueue_failedLFACache:
  "failedLFACache (zapAndQueue ik Loads st) IA LI
     = (if (LI, IA) \<in> set Loads then None else failedLFACache st IA LI)"
proof (induction Loads arbitrary: st)
  case Nil
  then show ?case by simp
next
  case (Cons x Loads)
  obtain L C where x: "x = (L, C)" by (cases x)
  show ?case
    unfolding x zapAndQueue.simps Cons.IH
    by (simp add: zap_caches_at)
qed

lemma zapAndQueue_defOrClobberCache:
  "defOrClobberCache (zapAndQueue ik Loads st) IA LI
     = (if (LI, IA) \<in> set Loads then None else defOrClobberCache st IA LI)"
proof (induction Loads arbitrary: st)
  case Nil
  then show ?case by simp
next
  case (Cons x Loads)
  obtain L C where x: "x = (L, C)" by (cases x)
  show ?case
    unfolding x zapAndQueue.simps Cons.IH
    by (simp add: zap_caches_at)
qed

text \<open>
  Claim C6, as the code has it. After \<^verbatim>\<open>zapDefOrClobberCache(L)\<close> in context \<open>C\<close> the positive
  and the negative cache entry of \<open>L\<close> are gone, and for every store with a non-null context
  listed in the cached entry the edge \<open>(L, C)\<close> is gone from that context's
  \<^verbatim>\<open>memWriterEffects\<close>. The \<^verbatim>\<open>callBlockedPBLoads\<close> tables are left as they were and nothing is
  queued by the function itself. Its callers do the queueing: \<^verbatim>\<open>dismissCallBlockedPBLoads\<close>
  zaps each load blocked by the call, puts it on the pending queue and erases the call's whole
  entry; \<^verbatim>\<open>localCFGChanged\<close> does the same for the loads depending on the context's CFG and
  clears that set.
\<close>

theorem C6_zap_unlinks_stores_only:
  "failedLFACache (zapDefOrClobberCache ik st C L) C L = None
   \<and> defOrClobberCache (zapDefOrClobberCache ik st C L) C L = None
   \<and> (\<forall>CEntry e D. defOrClobberCache st C L = Some CEntry \<and> e \<in> set CEntry
          \<and> second e = Some D \<and> isStoreInst ik (first e)
        \<longrightarrow> (L, C) \<notin> set (memWriterEffects (zapDefOrClobberCache ik st C L) D (first e)))
   \<and> callBlockedPBLoads (zapDefOrClobberCache ik st C L) = callBlockedPBLoads st
   \<and> pendingPBChecks (zapDefOrClobberCache ik st C L) = pendingPBChecks st
   \<and> (\<forall>Loads. callBlockedPBLoads st this CI = Some Loads \<longrightarrow>
         callBlockedPBLoads (dismissCallBlockedPBLoads ik st this CI) this CI = None
         \<and> pendingPBChecks (dismissCallBlockedPBLoads ik st this CI)
             = pendingPBChecks st @ map (\<lambda>(LI, IA). make_vc LI (Some IA)) Loads
         \<and> (\<forall>(LI, IA) \<in> set Loads.
               failedLFACache (dismissCallBlockedPBLoads ik st this CI) IA LI = None
               \<and> defOrClobberCache (dismissCallBlockedPBLoads ik st this CI) IA LI = None))
   \<and> CFGDependentPBLoads (localCFGChanged ik st this) this = []
   \<and> pendingPBChecks (localCFGChanged ik st this)
       = pendingPBChecks st @ map (\<lambda>(LI, IA). make_vc LI (Some IA)) (CFGDependentPBLoads st this)
   \<and> (\<forall>(LI, IA) \<in> set (CFGDependentPBLoads st this).
         failedLFACache (localCFGChanged ik st this) IA LI = None
         \<and> defOrClobberCache (localCFGChanged ik st this) IA LI = None)"
proof -
  have 1: "failedLFACache (zapDefOrClobberCache ik st C L) C L = None"
    and 2: "defOrClobberCache (zapDefOrClobberCache ik st C L) C L = None"
    by (simp_all add: zap_caches_at)
  have 3: "\<forall>CEntry e D. defOrClobberCache st C L = Some CEntry \<and> e \<in> set CEntry
          \<and> second e = Some D \<and> isStoreInst ik (first e)
        \<longrightarrow> (L, C) \<notin> set (memWriterEffects (zapDefOrClobberCache ik st C L) D (first e))"
    using zap_memWriterEffects by (intro allI impI) (elim conjE, assumption+)
  have 4: "callBlockedPBLoads (zapDefOrClobberCache ik st C L) = callBlockedPBLoads st"
    and 5: "pendingPBChecks (zapDefOrClobberCache ik st C L) = pendingPBChecks st"
    by simp_all
  have 6: "\<forall>Loads. callBlockedPBLoads st this CI = Some Loads \<longrightarrow>
         callBlockedPBLoads (dismissCallBlockedPBLoads ik st this CI) this CI = None
         \<and> pendingPBChecks (dismissCallBlockedPBLoads ik st this CI)
             = pendingPBChecks st @ map (\<lambda>(LI, IA). make_vc LI (Some IA)) Loads
         \<and> (\<forall>(LI, IA) \<in> set Loads.
               failedLFACache (dismissCallBlockedPBLoads ik st this CI) IA LI = None
               \<and> defOrClobberCache (dismissCallBlockedPBLoads ik st this CI) IA LI = None)"
    by (auto simp: dismissCallBlockedPBLoads_def Let_def zapAndQueue_pending
        zapAndQueue_failedLFACache zapAndQueue_defOrClobberCache)
  have 7: "CFGDependentPBLoads (localCFGChanged ik st this) this = []"
    and 8: "pendingPBChecks (localCFGChanged ik st this)
       = pendingPBChecks st @ map (\<lambda>(LI, IA). make_vc LI (Some IA)) (CFGDependentPBLoads st this)"
    and 9: "\<forall>(LI, IA) \<in> set (CFGDependentPBLoads st this).
         failedLFACache (localCFGChanged ik st this) IA LI = None
         \<and> defOrClobberCache (localCFGChanged ik st this) IA LI = None"
    by (auto simp: localCFGChanged_def Let_def zapAndQueue_pending
        zapAndQueue_failedLFACache zapAndQueue_defOrClobberCache)
  from 1 2 3 4 5 6 7 8 9 show ?thesis by (intro conjI)
qed

text \<open>
  A load whose cached entry lists a store and a call: after the zap the call's
  \<^verbatim>\<open>callBlockedPBLoads\<close> entry still holds the load, and the pending queue is still empty.
\<close>

theorem C6_counterexample:
  "(let ik = \<lparr>isStoreInst = (\<lambda>v. v = 20), isCallInst = (\<lambda>v. v = 30),
               isMemIntrinsic = (\<lambda>v. False), calledFunctionBlacklisted = (\<lambda>c v. False),
               extractMallocCall = (\<lambda>v. False)\<rparr>;
        C = RootInlineAttempt; D = InlineAttempt RootInlineAttempt 9;
        st0 = emptyState\<lparr>defOrClobberCache :=
                (\<lambda>c. if c = C then [5 \<mapsto> [make_vc 20 (Some D), make_vc 30 (Some D)]] else Map.empty)\<rparr>;
        st = addCallBlockedPBLoad (addMemWriterEffect st0 D 20 5 C) D 30 5 C;
        st' = zapDefOrClobberCache ik st C 5
    in defOrClobberCache st C 5 = Some [make_vc 20 (Some D), make_vc 30 (Some D)]
       \<and> isCallInst ik 30
       \<and> callBlockedPBLoads st D 30 = Some [(5, C)]
       \<and> callBlockedPBLoads st' D 30 = Some [(5, C)]
       \<and> pendingPBChecks st' = [])"
  by (simp add: Let_def emptyState_def addCallBlockedPBLoad_def addMemWriterEffect_def
      zapDefOrClobberCache_def removeMemWriterEffect_def make_vc_def)

text \<open>
  The same state: the store's edge is unlinked by the zap, and dismissing the call erases
  the caches and queues the load.
\<close>

theorem C6_witness:
  "(let ik = \<lparr>isStoreInst = (\<lambda>v. v = 20), isCallInst = (\<lambda>v. v = 30),
               isMemIntrinsic = (\<lambda>v. False), calledFunctionBlacklisted = (\<lambda>c v. False),
               extractMallocCall = (\<lambda>v. False)\<rparr>;
        C = RootInlineAttempt; D = InlineAttempt RootInlineAttempt 9;
        st0 = emptyState\<lparr>defOrClobberCache :=
                (\<lambda>c. if c = C then [5 \<mapsto> [make_vc 20 (Some D), make_vc 30 (Some D)]] else Map.empty),
                failedLFACache := (\<lambda>c. if c = C then [5 \<mapsto> ''Reached main''] else Map.empty)\<rparr>;
        st = addCallBlockedPBLoad (addMemWriterEffect st0 D 20 5 C) D 30 5 C;
        st' = zapDefOrClobberCache ik st C 5;
        st'' = dismissCallBlockedPBLoads ik st D 30
    in defOrClobberCache st C 5 = Some [make_vc 20 (Some D), make_vc 30 (Some D)]
       \<and> failedLFACache st C 5 = Some ''Reached main''
       \<and> second (make_vc (20::Value) (Some D)) = Some D
       \<and> isStoreInst ik (first (make_vc (20::Value) (Some D)))
       \<and> (5, C) \<in> set (memWriterEffects st D 20)
       \<and> (5, C) \<notin> set (memWriterEffects st' D 20)
       \<and> failedLFACache st' C 5 = None \<and> defOrClobberCache st' C 5 = None
       \<and> callBlockedPBLoads st D 30 = Some [(5, C)]
       \<and> callBlockedPBLoads st'' D 30 = None
       \<and> pendingPBChecks st'' = [make_vc 5 (Some C)]
       \<and> failedLFACache st'' C 5 = None \<and> defOrClobberCache st'' C 5 = None)"
proof -
  define ik where "ik = \<lparr>isStoreInst = (\<lambda>v::nat. v = 20), isCallInst = (\<lambda>v::nat. v = 30),
               isMemIntrinsic = (\<lambda>v::nat. False), calledFunctionBlacklisted = (\<lambda>(c::Ctx) (v::nat). False),
               extractMallocCall = (\<lambda>v::nat. False)\<rparr>"
  define C where "C = RootInlineAttempt"
  define D where "D = InlineAttempt C 9"
  define st0 where "st0 = emptyState\<lparr>defOrClobberCache :=
                (\<lambda>c. if c = C then [5 \<mapsto> [make_vc 20 (Some D), make_vc 30 (Some D)]] else Map.empty),
                failedLFACache := (\<lambda>c. if c = C then [5 \<mapsto> ''Reached main''] else Map.empty)\<rparr>"
  define st where "st = addCallBlockedPBLoad (addMemWriterEffect st0 D 20 5 C) D 30 5 C"
  have cd: "C \<noteq> D" by (simp add: C_def D_def)
  note defs = st_def st0_def emptyState_def addCallBlockedPBLoad_def addMemWriterEffect_def
  have h1: "defOrClobberCache st C 5 = Some [make_vc 20 (Some D), make_vc 30 (Some D)]"
    and h1': "failedLFACache st C 5 = Some ''Reached main''"
    and h2: "make_vc 20 (Some D) \<in> set [make_vc 20 (Some D), make_vc 30 (Some D)]"
    and h3: "second (make_vc (20::nat) (Some D)) = Some D"
    and h4: "isStoreInst ik (first (make_vc 20 (Some D)))"
    and h5: "(5, C) \<in> set (memWriterEffects st D 20)"
    and h6: "callBlockedPBLoads st D 30 = Some [(5, C)]"
    and h7: "pendingPBChecks st = []"
    by (simp_all add: defs make_vc_def ik_def cd)
  note t = C6_zap_unlinks_stores_only[of ik st C 5 D 30]
  have r1: "failedLFACache (zapDefOrClobberCache ik st C 5) C 5 = None"
    and r2: "defOrClobberCache (zapDefOrClobberCache ik st C 5) C 5 = None"
    using t by simp_all
  have r3: "(5, C) \<notin> set (memWriterEffects (zapDefOrClobberCache ik st C 5) D (first (make_vc 20 (Some D))))"
    using t[THEN conjunct2, THEN conjunct2, THEN conjunct1, rule_format,
        of "[make_vc 20 (Some D), make_vc 30 (Some D)]" "make_vc 20 (Some D)" D] h1 h2 h3 h4
    by simp
  have r4: "callBlockedPBLoads (dismissCallBlockedPBLoads ik st D 30) D 30 = None
         \<and> pendingPBChecks (dismissCallBlockedPBLoads ik st D 30)
             = pendingPBChecks st @ map (\<lambda>(LI, IA). make_vc LI (Some IA)) [(5, C)]
         \<and> (\<forall>(LI, IA) \<in> set [(5, C)].
               failedLFACache (dismissCallBlockedPBLoads ik st D 30) IA LI = None
               \<and> defOrClobberCache (dismissCallBlockedPBLoads ik st D 30) IA LI = None)"
    using t[THEN conjunct2, THEN conjunct2, THEN conjunct2, THEN conjunct2, THEN conjunct2,
        THEN conjunct1, rule_format, of "[(5, C)]"] h6
    by simp
  have f: "first (make_vc (20::nat) (Some D)) = 20" by (simp add: make_vc_def)
  show ?thesis
    using h1 h1' h3 h4 h5 h6 h7 r1 r2 r3 r4
    unfolding ik_def[symmetric] C_def[symmetric] D_def[symmetric] st0_def[symmetric] st_def[symmetric] Let_def f
    by simp
qed

section \<open>Properties of the start-of-scope rule and the failure cache\<close>

lemma min_eq_right_iff: "min a b = b \<longleftrightarrow> b \<le> (a :: 64 word)"
  by (auto simp: min_def)

lemma coverage_without_wrap:
  fixes GVCSize LoadSize :: "64 word" and off :: int
  assumes "0 \<le> off" "off \<le> uint GVCSize"
  shows "min (GVCSize - word_of_int off) LoadSize = LoadSize \<longleftrightarrow> off + uint LoadSize \<le> uint GVCSize"
proof -
  have lt: "off < 2 ^ 64" using assms(2) uint_lt2p[of GVCSize] by simp
  have u: "uint (word_of_int off :: 64 word) = off"
    using assms(1) lt by (simp add: uint_word_of_int take_bit_int_eq_self)
  have le: "(word_of_int off :: 64 word) \<le> GVCSize"
    using assms(2) u by (simp add: word_le_def)
  have "uint (GVCSize - word_of_int off) = uint GVCSize - uint (word_of_int off :: 64 word)"
    using le by (simp add: uint_sub_if' word_le_def)
  then have "uint (GVCSize - word_of_int off) = uint GVCSize - off"
    using u by simp
  then have "LoadSize \<le> GVCSize - word_of_int off \<longleftrightarrow> uint LoadSize \<le> uint GVCSize - off"
    by (simp add: word_le_def)
  then show ?thesis by (auto simp: min_eq_right_iff)
qed

lemma startOfScopeField_iff:
  "startOfScopeField lv LI LFA = Some F \<longleftrightarrow>
     canBuildSymExpr LFA \<and> isGlobalVariable lv (first (BaseVC LFA))
     \<and> hasDefinitiveInitializer lv (first (BaseVC LFA))
     \<and> min ((getTypeSizeInBits lv (getInitializer lv (first (BaseVC LFA))) + 7) div 8
              - word_of_int (SymExprOffset LFA))
            ((getTypeSizeInBits lv LI + 7) div 8) = (getTypeSizeInBits lv LI + 7) div 8
     \<and> F = extractAggregateMemberAt lv (getInitializer lv (first (BaseVC LFA)))
               (word_of_int (SymExprOffset LFA)) LI ((getTypeSizeInBits lv LI + 7) div 8)
     \<and> F \<noteq> VCNull"
  by (auto simp: startOfScopeField_def Let_def)

lemma reachedTop_fields:
  "PB (reachedTop A s) = getOverdef"
  "OverdefReasons (reachedTop A s) = OverdefReasons A @ [s]"
  "ReachedTop (reachedTop A s)"
  "ReachedTopStr (reachedTop A s) = s"
  "DefOrClobberInstructions (reachedTop A s) = DefOrClobberInstructions A"
  by (simp_all add: reachedTop_def setPBOverdef_def)

lemma failure_is_cached:
  assumes "failedLFACache st this LI = None" "defOrClobberCache st this LI = None"
    and "CompletelyExplored (tryResolveLoad lv st this LI (startAttempt lv this LI False))"
    and "ReachedTop (tryResolveLoad lv st this LI (startAttempt lv this LI False))"
  shows "\<exists>st' r. tryForwardLoadPB ir ik lv st this LI False
                   = Inr (st', tryResolveLoad lv st this LI (startAttempt lv this LI False), r)
          \<and> failedLFACache st' this LI
               = Some (ReachedTopStr (tryResolveLoad lv st this LI (startAttempt lv this LI False)))
          \<and> defOrClobberCache st' this LI = None"
  using assms
  by (simp add: tryForwardLoadPB_def Let_def finishForwardLoadPB_def)

lemma cached_failure_is_replayed:
  assumes "failedLFACache st this LI = Some s"
  shows "\<exists>st'. tryForwardLoadPB ir ik lv st this LI fin
                 = Inr (st', reachedTop (startAttempt lv this LI fin) s, Some getOverdef)
          \<and> failedLFACache st' this LI = Some s
          \<and> (if fin then pessimisticForwardStatus st' this LI else optimisticForwardStatus st' this LI)
               = Some (joinReasons (OverdefReasons (newLoadForwardAttempt lv this LI) @ [s]))"
  using assms
  by (simp add: tryForwardLoadPB_def Let_def finishForwardLoadPB_def reachedTop_fields
      getOverdef_def PointerBase2_def describeLFA_def startAttempt_def)

text \<open>
  Claim C7, as the code has it. \<^verbatim>\<open>addStartOfScopePB\<close> records a definition exactly when the
  symbolic expression can be built, its base is a global variable with a definitive
  initialiser, the initialiser's size less the read offset (in \<^verbatim>\<open>uint64_t\<close>) is at least the
  load size, and \<^verbatim>\<open>extractAggregateMemberAt\<close> returns a member other than \<^verbatim>\<open>VCNull\<close>: that
  member is appended to the definitions and its fact merged into the result. For an offset
  between 0 and the initialiser's size the size test says that the initialiser covers the
  loaded bytes. In every other case the attempt is overdefined with the reason
  \<open>Reached main\<close>, which is also its \<^verbatim>\<open>ReachedTopStr\<close>. In \<^verbatim>\<open>tryForwardLoadPB\<close>, a first query
  whose walk ends completely explored and at the top stores that string in
  \<^verbatim>\<open>failedLFACache\<close>, and every query that finds a cached failure returns overdefined with the
  cached string as its reason, in either phase, keeping the cache entry.
\<close>

theorem C7_start_of_scope_and_failure_cache:
  "(\<forall>F. startOfScopeField lv LI LFA = Some F \<and> asConstant ir (first F) \<noteq> None \<longrightarrow>
        addStartOfScopePB ir lv LI LFA
          = Inr (addPBDefn (LFA\<lparr>DefOrClobberInstructions := DefOrClobberInstructions LFA @ [F]\<rparr>)
                           (PointerBase_get ir F)))
   \<and> (startOfScopeField lv LI LFA = None \<longrightarrow>
        addStartOfScopePB ir lv LI LFA = Inr (reachedTop LFA ''Reached main'')
        \<and> PB (reachedTop LFA ''Reached main'') = getOverdef
        \<and> OverdefReasons (reachedTop LFA ''Reached main'') = OverdefReasons LFA @ [''Reached main'']
        \<and> ReachedTop (reachedTop LFA ''Reached main'')
        \<and> ReachedTopStr (reachedTop LFA ''Reached main'') = ''Reached main''
        \<and> DefOrClobberInstructions (reachedTop LFA ''Reached main'') = DefOrClobberInstructions LFA)
   \<and> (\<forall>F. startOfScopeField lv LI LFA = Some F \<longleftrightarrow>
        canBuildSymExpr LFA \<and> isGlobalVariable lv (first (BaseVC LFA))
        \<and> hasDefinitiveInitializer lv (first (BaseVC LFA))
        \<and> min ((getTypeSizeInBits lv (getInitializer lv (first (BaseVC LFA))) + 7) div 8
                 - word_of_int (SymExprOffset LFA))
               ((getTypeSizeInBits lv LI + 7) div 8) = (getTypeSizeInBits lv LI + 7) div 8
        \<and> F = extractAggregateMemberAt lv (getInitializer lv (first (BaseVC LFA)))
                  (word_of_int (SymExprOffset LFA)) LI ((getTypeSizeInBits lv LI + 7) div 8)
        \<and> F \<noteq> VCNull)
   \<and> (\<forall>GVCSize LoadSize :: 64 word.
        0 \<le> SymExprOffset LFA \<and> SymExprOffset LFA \<le> uint GVCSize \<longrightarrow>
        (min (GVCSize - word_of_int (SymExprOffset LFA)) LoadSize = LoadSize
           \<longleftrightarrow> SymExprOffset LFA + uint LoadSize \<le> uint GVCSize))
   \<and> (failedLFACache st this LI = None \<and> defOrClobberCache st this LI = None
        \<and> CompletelyExplored (tryResolveLoad lv st this LI (startAttempt lv this LI False))
        \<and> ReachedTop (tryResolveLoad lv st this LI (startAttempt lv this LI False))
      \<longrightarrow> (\<exists>st' r. tryForwardLoadPB ir ik lv st this LI False
                       = Inr (st', tryResolveLoad lv st this LI (startAttempt lv this LI False), r)
              \<and> failedLFACache st' this LI
                   = Some (ReachedTopStr (tryResolveLoad lv st this LI (startAttempt lv this LI False)))
              \<and> defOrClobberCache st' this LI = None))
   \<and> (\<forall>s fin. failedLFACache st this LI = Some s \<longrightarrow>
        (\<exists>st'. tryForwardLoadPB ir ik lv st this LI fin
                  = Inr (st', reachedTop (startAttempt lv this LI fin) s, Some getOverdef)
           \<and> failedLFACache st' this LI = Some s
           \<and> (if fin then pessimisticForwardStatus st' this LI else optimisticForwardStatus st' this LI)
                = Some (joinReasons (OverdefReasons (newLoadForwardAttempt lv this LI) @ [s]))))"
proof -
  have 1: "\<forall>F. startOfScopeField lv LI LFA = Some F \<and> asConstant ir (first F) \<noteq> None \<longrightarrow>
        addStartOfScopePB ir lv LI LFA
          = Inr (addPBDefn (LFA\<lparr>DefOrClobberInstructions := DefOrClobberInstructions LFA @ [F]\<rparr>)
                           (PointerBase_get ir F))"
    by (simp add: addStartOfScopePB_def)
  have 2: "startOfScopeField lv LI LFA = None \<longrightarrow>
        addStartOfScopePB ir lv LI LFA = Inr (reachedTop LFA ''Reached main'')
        \<and> PB (reachedTop LFA ''Reached main'') = getOverdef
        \<and> OverdefReasons (reachedTop LFA ''Reached main'') = OverdefReasons LFA @ [''Reached main'']
        \<and> ReachedTop (reachedTop LFA ''Reached main'')
        \<and> ReachedTopStr (reachedTop LFA ''Reached main'') = ''Reached main''
        \<and> DefOrClobberInstructions (reachedTop LFA ''Reached main'') = DefOrClobberInstructions LFA"
    by (simp add: addStartOfScopePB_def reachedTop_fields)
  have 3: "\<forall>F. startOfScopeField lv LI LFA = Some F \<longleftrightarrow>
        canBuildSymExpr LFA \<and> isGlobalVariable lv (first (BaseVC LFA))
        \<and> hasDefinitiveInitializer lv (first (BaseVC LFA))
        \<and> min ((getTypeSizeInBits lv (getInitializer lv (first (BaseVC LFA))) + 7) div 8
                 - word_of_int (SymExprOffset LFA))
               ((getTypeSizeInBits lv LI + 7) div 8) = (getTypeSizeInBits lv LI + 7) div 8
        \<and> F = extractAggregateMemberAt lv (getInitializer lv (first (BaseVC LFA)))
                  (word_of_int (SymExprOffset LFA)) LI ((getTypeSizeInBits lv LI + 7) div 8)
        \<and> F \<noteq> VCNull"
    using startOfScopeField_iff by (intro allI)
  have 4: "\<forall>GVCSize LoadSize :: 64 word.
        0 \<le> SymExprOffset LFA \<and> SymExprOffset LFA \<le> uint GVCSize \<longrightarrow>
        (min (GVCSize - word_of_int (SymExprOffset LFA)) LoadSize = LoadSize
           \<longleftrightarrow> SymExprOffset LFA + uint LoadSize \<le> uint GVCSize)"
    using coverage_without_wrap by (intro allI impI) (elim conjE)
  have 5: "failedLFACache st this LI = None \<and> defOrClobberCache st this LI = None
        \<and> CompletelyExplored (tryResolveLoad lv st this LI (startAttempt lv this LI False))
        \<and> ReachedTop (tryResolveLoad lv st this LI (startAttempt lv this LI False))
      \<longrightarrow> (\<exists>st' r. tryForwardLoadPB ir ik lv st this LI False
                       = Inr (st', tryResolveLoad lv st this LI (startAttempt lv this LI False), r)
              \<and> failedLFACache st' this LI
                   = Some (ReachedTopStr (tryResolveLoad lv st this LI (startAttempt lv this LI False)))
              \<and> defOrClobberCache st' this LI = None)"
    using failure_is_cached[of st this LI lv ir ik] by (intro impI) (elim conjE)
  have 6: "\<forall>s fin. failedLFACache st this LI = Some s \<longrightarrow>
        (\<exists>st'. tryForwardLoadPB ir ik lv st this LI fin
                  = Inr (st', reachedTop (startAttempt lv this LI fin) s, Some getOverdef)
           \<and> failedLFACache st' this LI = Some s
           \<and> (if fin then pessimisticForwardStatus st' this LI else optimisticForwardStatus st' this LI)
                = Some (joinReasons (OverdefReasons (newLoadForwardAttempt lv this LI) @ [s])))"
    using cached_failure_is_replayed by (intro allI impI)
  from 1 2 3 4 5 6 show ?thesis by (intro conjI)
qed

text \<open>
  A four-byte load at offset 0 of a global with an eight-byte definitive initialiser, where
  \<^verbatim>\<open>extractAggregateMemberAt\<close> finds no member: no definition is recorded and the attempt is
  overdefined with \<open>Reached main\<close>.
\<close>

theorem C7_counterexample:
  "(let LFA = \<lparr>OverdefReasons = [], DefOrClobberInstructions = [], IgnoredClobbers = [],
                TraversedCtxs = [], PB = PointerBase0, ReachedTop = False, ReachedTopStr = [],
                CompletelyExplored = True, PBOptimistic = True, canBuildSymExpr = True,
                BaseVC = const_vc 50, SymExprOffset = 0\<rparr>;
        ir = \<lparr>asConstant = (\<lambda>v. if v = 77 then Some OtherConstant else None),
              isPointerTy = (\<lambda>v. False), pointeeIsFunctionTy = (\<lambda>v. False),
              isAllocaInst = (\<lambda>v. False), isNoAliasCall = (\<lambda>v. False),
              ConstantExpr_get = (\<lambda>opc x y. x), ConstantFoldConstantExpression = (\<lambda>v. None)\<rparr>;
        lv = \<lparr>isGlobalVariable = (\<lambda>v. v = 50), hasDefinitiveInitializer = (\<lambda>v. v = 50),
              getInitializer = (\<lambda>v. 51), getTypeSizeInBits = (\<lambda>v. if v = 51 then 64 else 32),
              extractAggregateMemberAt = (\<lambda>g off li sz. VCNull),
              tryResolveLoad = (\<lambda>st c li A. A), newLoadForwardAttempt = (\<lambda>c li. LFA),
              loadUnderlyingObject = (\<lambda>c li. VCNull), isNoModRef = (\<lambda>e c li f. True),
              aliasHypothetical = (\<lambda>e c li f. NoAlias), addPBResults = (\<lambda>st A rs. A),
              printPB = (\<lambda>pb. [])\<rparr>
    in canBuildSymExpr LFA \<and> isGlobalVariable lv (first (BaseVC LFA))
       \<and> hasDefinitiveInitializer lv (first (BaseVC LFA))
       \<and> (getTypeSizeInBits lv (getInitializer lv (first (BaseVC LFA))) + 7) div 8 = 8
       \<and> (getTypeSizeInBits lv 5 + 7) div 8 = 4
       \<and> SymExprOffset LFA = 0
       \<and> addStartOfScopePB ir lv 5 LFA = Inr (reachedTop LFA ''Reached main'')
       \<and> DefOrClobberInstructions (reachedTop LFA ''Reached main'') = []
       \<and> PB (reachedTop LFA ''Reached main'') = getOverdef
       \<and> OverdefReasons (reachedTop LFA ''Reached main'') = [''Reached main''])"
  by (simp add: Let_def addStartOfScopePB_def startOfScopeField_def const_vc_def make_vc_def
      reachedTop_def setPBOverdef_def)

text \<open>
  The same global read at offset 4, where a member is found, and at offset 6, where the
  initialiser is too short; then a load whose walk reaches the top, queried twice.
\<close>

theorem C7_witness:
  "(let LFA = \<lparr>OverdefReasons = [], DefOrClobberInstructions = [], IgnoredClobbers = [],
                TraversedCtxs = [], PB = PointerBase0, ReachedTop = False, ReachedTopStr = [],
                CompletelyExplored = True, PBOptimistic = True, canBuildSymExpr = True,
                BaseVC = const_vc 50, SymExprOffset = 4\<rparr>;
        ir = \<lparr>asConstant = (\<lambda>v. if v = 77 then Some OtherConstant else None),
              isPointerTy = (\<lambda>v. False), pointeeIsFunctionTy = (\<lambda>v. False),
              isAllocaInst = (\<lambda>v. False), isNoAliasCall = (\<lambda>v. False),
              ConstantExpr_get = (\<lambda>opc x y. x), ConstantFoldConstantExpression = (\<lambda>v. None)\<rparr>;
        ik = \<lparr>isStoreInst = (\<lambda>v. False), isCallInst = (\<lambda>v. False),
               isMemIntrinsic = (\<lambda>v. False), calledFunctionBlacklisted = (\<lambda>c v. False),
               extractMallocCall = (\<lambda>v. False)\<rparr>;
        lv = \<lparr>isGlobalVariable = (\<lambda>v. v = 50), hasDefinitiveInitializer = (\<lambda>v. v = 50),
              getInitializer = (\<lambda>v. 51), getTypeSizeInBits = (\<lambda>v. if v = 51 then 64 else 32),
              extractAggregateMemberAt = (\<lambda>g off li sz. if off = 4 then const_vc 77 else VCNull),
              tryResolveLoad = (\<lambda>st c li A. reachedTop A ''Reached main''),
              newLoadForwardAttempt = (\<lambda>c li. LFA),
              loadUnderlyingObject = (\<lambda>c li. VCNull), isNoModRef = (\<lambda>e c li f. True),
              aliasHypothetical = (\<lambda>e c li f. NoAlias), addPBResults = (\<lambda>st A rs. A),
              printPB = (\<lambda>pb. [])\<rparr>
    in startOfScopeField lv 5 LFA = Some (const_vc 77) \<and> asConstant ir (first (const_vc 77)) \<noteq> None
       \<and> addStartOfScopePB ir lv 5 LFA
            = Inr (LFA\<lparr>DefOrClobberInstructions := [const_vc 77],
                       PB := get_typed (const_vc 77) ValSetTypeScalar\<rparr>)
       \<and> startOfScopeField lv 5 (LFA\<lparr>SymExprOffset := 6\<rparr>) = None
       \<and> addStartOfScopePB ir lv 5 (LFA\<lparr>SymExprOffset := 6\<rparr>)
            = Inr (reachedTop (LFA\<lparr>SymExprOffset := 6\<rparr>) ''Reached main'')
       \<and> failedLFACache emptyState RootInlineAttempt 5 = None
       \<and> defOrClobberCache emptyState RootInlineAttempt 5 = None
       \<and> (\<exists>st' r. tryForwardLoadPB ir ik lv emptyState RootInlineAttempt 5 False
                     = Inr (st', reachedTop (startAttempt lv RootInlineAttempt 5 False) ''Reached main'', r)
             \<and> failedLFACache st' RootInlineAttempt 5 = Some ''Reached main''
             \<and> (\<exists>st''. tryForwardLoadPB ir ik lv st' RootInlineAttempt 5 True
                         = Inr (st'', reachedTop (startAttempt lv RootInlineAttempt 5 True) ''Reached main'',
                                Some getOverdef)
                   \<and> pessimisticForwardStatus st'' RootInlineAttempt 5 = Some ''Reached main'')))"
proof -
  define LFA where "LFA = \<lparr>OverdefReasons = [], DefOrClobberInstructions = [], IgnoredClobbers = [],
                TraversedCtxs = [], PB = (PointerBase0 :: PB), ReachedTop = False, ReachedTopStr = [],
                CompletelyExplored = True, PBOptimistic = True, canBuildSymExpr = True,
                BaseVC = const_vc 50, SymExprOffset = 4\<rparr>"
  define ir where "ir = \<lparr>asConstant = (\<lambda>v::nat. if v = 77 then Some OtherConstant else None),
              isPointerTy = (\<lambda>v::nat. False), pointeeIsFunctionTy = (\<lambda>v::nat. False),
              isAllocaInst = (\<lambda>v::nat. False), isNoAliasCall = (\<lambda>v::nat. False),
              ConstantExpr_get = (\<lambda>(opc::Opcode) (x::nat) (y::nat). x),
              ConstantFoldConstantExpression = (\<lambda>v::nat. None :: nat option)\<rparr>"
  define ik where "ik = \<lparr>isStoreInst = (\<lambda>v::nat. False), isCallInst = (\<lambda>v::nat. False),
               isMemIntrinsic = (\<lambda>v::nat. False), calledFunctionBlacklisted = (\<lambda>(c::Ctx) (v::nat). False),
               extractMallocCall = (\<lambda>v::nat. False)\<rparr>"
  define lv where "lv = \<lparr>isGlobalVariable = (\<lambda>v::nat. v = 50), hasDefinitiveInitializer = (\<lambda>v::nat. v = 50),
              getInitializer = (\<lambda>v::nat. 51::nat), getTypeSizeInBits = (\<lambda>v::nat. if v = 51 then 64 else 32 :: 64 word),
              extractAggregateMemberAt = (\<lambda>(g::nat) (off::64 word) (li::nat) (sz::64 word). if off = 4 then const_vc 77 else VCNull),
              tryResolveLoad = (\<lambda>(st::State) (c::Ctx) (li::nat) A. reachedTop A ''Reached main''),
              newLoadForwardAttempt = (\<lambda>(c::Ctx) (li::nat). LFA),
              loadUnderlyingObject = (\<lambda>(c::Ctx) (li::nat). VCNull), isNoModRef = (\<lambda>(e::VC) (c::Ctx) (li::nat) (f::bool). True),
              aliasHypothetical = (\<lambda>(e::VC) (c::Ctx) (li::nat) (f::bool). NoAlias),
              addPBResults = (\<lambda>(st::State) (A::LoadForwardAttempt) (rs::MemDepResult list). A),
              printPB = (\<lambda>pb::PB. [])\<rparr>"
  have nn: "const_vc 77 \<noteq> VCNull" by (simp add: const_vc_def VCNull_def make_vc_def)
  have f: "startOfScopeField lv 5 LFA = Some (const_vc 77)"
    using nn by (simp add: startOfScopeField_def lv_def LFA_def const_vc_def make_vc_def)
  have c: "asConstant ir (first (const_vc 77)) \<noteq> None"
    by (simp add: ir_def const_vc_def make_vc_def)
  note t = C7_start_of_scope_and_failure_cache
  have a1: "addStartOfScopePB ir lv 5 LFA
      = Inr (addPBDefn (LFA\<lparr>DefOrClobberInstructions := DefOrClobberInstructions LFA @ [const_vc 77]\<rparr>)
                       (PointerBase_get ir (const_vc 77)))"
    using t[of lv 5 LFA ir, THEN conjunct1, rule_format, of "const_vc 77"] f c by simp
  have g: "PointerBase_get ir (const_vc 77) = get_typed (const_vc 77) ValSetTypeScalar"
    by (simp add: PointerBase_get_def ir_def const_vc_def make_vc_def)
  have a2: "addPBDefn (LFA\<lparr>DefOrClobberInstructions := DefOrClobberInstructions LFA @ [const_vc 77]\<rparr>)
                       (get_typed (const_vc 77) ValSetTypeScalar)
      = LFA\<lparr>DefOrClobberInstructions := [const_vc 77], PB := get_typed (const_vc 77) ValSetTypeScalar\<rparr>"
  proof -
    have m: "merge PointerBase0 (get_typed (const_vc 77) ValSetTypeScalar)
        = get_typed (const_vc 77) ValSetTypeScalar"
      by (rule merge_into_empty)
    have no: "\<not> Overdef (get_typed (const_vc 77) ValSetTypeScalar)"
      by (simp add: get_typed_def PointerBase1_def insert_PB_def PBMAX_def)
    show ?thesis by (simp add: addPBDefn_def LFA_def Let_def m no)
  qed
  have n: "startOfScopeField lv 5 (LFA\<lparr>SymExprOffset := 6\<rparr>) = None"
    by (simp add: startOfScopeField_def lv_def LFA_def const_vc_def make_vc_def)
  have a3: "addStartOfScopePB ir lv 5 (LFA\<lparr>SymExprOffset := 6\<rparr>)
            = Inr (reachedTop (LFA\<lparr>SymExprOffset := 6\<rparr>) ''Reached main'')"
    using t[of lv 5 "LFA\<lparr>SymExprOffset := 6\<rparr>" ir, THEN conjunct2, THEN conjunct1] n by simp
  have e1: "failedLFACache emptyState RootInlineAttempt 5 = None"
    and e2: "defOrClobberCache emptyState RootInlineAttempt 5 = None"
    by (simp_all add: emptyState_def)
  have tr: "tryResolveLoad lv emptyState RootInlineAttempt 5 (startAttempt lv RootInlineAttempt 5 False)
      = reachedTop (startAttempt lv RootInlineAttempt 5 False) ''Reached main''"
    by (simp add: lv_def)
  have ce: "CompletelyExplored (reachedTop (startAttempt lv RootInlineAttempt 5 False) ''Reached main'')"
    and rt: "ReachedTop (reachedTop (startAttempt lv RootInlineAttempt 5 False) ''Reached main'')"
    and rs: "ReachedTopStr (reachedTop (startAttempt lv RootInlineAttempt 5 False) ''Reached main'') = ''Reached main''"
    by (simp_all add: reachedTop_def setPBOverdef_def startAttempt_def)
  have nr: "OverdefReasons (newLoadForwardAttempt lv RootInlineAttempt 5) = []"
    by (simp add: lv_def LFA_def)
  obtain st' r where q1: "tryForwardLoadPB ir ik lv emptyState RootInlineAttempt 5 False
        = Inr (st', reachedTop (startAttempt lv RootInlineAttempt 5 False) ''Reached main'', r)"
    and q2: "failedLFACache st' RootInlineAttempt 5 = Some ''Reached main''"
    using t[of lv 5 LFA ir emptyState RootInlineAttempt ik, THEN conjunct2, THEN conjunct2,
        THEN conjunct2, THEN conjunct2, THEN conjunct1] e1 e2 ce rt rs
    unfolding tr by auto
  obtain st'' where q3: "tryForwardLoadPB ir ik lv st' RootInlineAttempt 5 True
        = Inr (st'', reachedTop (startAttempt lv RootInlineAttempt 5 True) ''Reached main'', Some getOverdef)"
    and q4: "pessimisticForwardStatus st'' RootInlineAttempt 5 = Some ''Reached main''"
    using C7_start_of_scope_and_failure_cache[of lv 5 LFA ir st' RootInlineAttempt ik,
        THEN conjunct2, THEN conjunct2, THEN conjunct2, THEN conjunct2, THEN conjunct2,
        rule_format, of "''Reached main''" True] q2 nr
    by auto
  have last: "\<exists>st' r. tryForwardLoadPB ir ik lv emptyState RootInlineAttempt 5 False
                     = Inr (st', reachedTop (startAttempt lv RootInlineAttempt 5 False) ''Reached main'', r)
             \<and> failedLFACache st' RootInlineAttempt 5 = Some ''Reached main''
             \<and> (\<exists>st''. tryForwardLoadPB ir ik lv st' RootInlineAttempt 5 True
                         = Inr (st'', reachedTop (startAttempt lv RootInlineAttempt 5 True) ''Reached main'',
                                Some getOverdef)
                   \<and> pessimisticForwardStatus st'' RootInlineAttempt 5 = Some ''Reached main'')"
    using q1 q2 q3 q4 by blast
  have a: "addStartOfScopePB ir lv 5 LFA
            = Inr (LFA\<lparr>DefOrClobberInstructions := [const_vc 77],
                       PB := get_typed (const_vc 77) ValSetTypeScalar\<rparr>)"
    using a1 a2 g by simp
  show ?thesis
    using f c a n a3 e1 e2 last
    unfolding LFA_def[symmetric] ir_def[symmetric] ik_def[symmetric] lv_def[symmetric] Let_def
    by (intro conjI)
qed

section \<open>Termination of the solver\<close>

text \<open>
  What a call of \<^verbatim>\<open>updateBasePointer\<close> leaves alone: load forwarding writes to the caches
  and dependency tables only, queueing users appends to the produce queue only, and the one
  write to \<^verbatim>\<open>pointerBases\<close> is the store of the new fact.
\<close>

lemma addMemWriterEffect_pointerBases [simp]:
  "pointerBases (addMemWriterEffect st C I LI this) = pointerBases st"
  by (simp add: addMemWriterEffect_def)

lemma addCallBlockedPBLoad_pointerBases [simp]:
  "pointerBases (addCallBlockedPBLoad st C I LI this) = pointerBases st"
  by (simp add: addCallBlockedPBLoad_def)

lemma addCFGDependentPBLoad_pointerBases [simp]:
  "pointerBases (addCFGDependentPBLoad st C LI this) = pointerBases st"
  by (simp add: addCFGDependentPBLoad_def)

lemma registerDependencies_pointerBases [simp]:
  "pointerBases (registerDependencies ik this LI es st) = pointerBases st"
  by (induction es arbitrary: st) (simp_all split: option.splits)

lemma registerTraversed_pointerBases [simp]:
  "pointerBases (registerTraversed this LI Cs st) = pointerBases st"
  by (induction Cs arbitrary: st) simp_all




lemma sameButProduce_refl [simp]: "sameButProduce s s"
  by (simp add: sameButProduce_def)


lemma sameButProduce_tables [simp]: "sameButProduce s (s\<lparr>tables := t\<rparr>)"
  by (simp add: sameButProduce_def consumeQueue_def produceQueue_def)

lemma sameButProduce_modified [simp]: "sameButProduce s (s\<lparr>modifiedVCs := m\<rparr>)"
  by (simp add: sameButProduce_def consumeQueue_def produceQueue_def)







text \<open>
  The escape of the pessimistic phase: with \<^verbatim>\<open>finalise\<close> set, a value whose fact is absent
  or overdefined is left as it is, and the call returns false.
\<close>

lemma updateBasePointer_getting_no_worse:
  "(case getPointerBaseFalling ir (tables s) C V of None \<Rightarrow> True | Some Old \<Rightarrow> Overdef Old)
   \<Longrightarrow> updateBasePointer env ir li ik lv s C V True = Inr (s, False)"
  by (simp add: updateBasePointer_def gettingNoWorse_def)





lemma headroom_modifiedVCs [simp]: "headroom (s\<lparr>modifiedVCs := m\<rparr>) = headroom s"
  by (simp add: headroom_def)

lemma produceQueue_modifiedVCs [simp]: "produceQueue (s\<lparr>modifiedVCs := m\<rparr>) = produceQueue s"
  by (simp add: produceQueue_def)

lemma consumeQueue_modifiedVCs [simp]: "consumeQueue (s\<lparr>modifiedVCs := m\<rparr>) = consumeQueue s"
  by (simp add: consumeQueue_def)

lemma sameButProduce_produce_eq:
  "sameButProduce s s1 \<Longrightarrow> sameButProduce s1 s2 \<Longrightarrow> produceQueue s2 = produceQueue s1
   \<Longrightarrow> produceQueue s1 = produceQueue s \<Longrightarrow> produceQueue s2 = produceQueue s"
  by simp








subsection \<open>A run that never ends\<close>

text \<open>What queueing and a change of the tables leave of a pass.\<close>

lemma pass_queueUpdatePB_obs [simp]:
  "tables (pass_queueUpdatePB s C V) = tables s"
  "PBsConsideredThisRun (pass_queueUpdatePB s C V) = PBsConsideredThisRun s"
  "consumeQueue (pass_queueUpdatePB s C V) = consumeQueue s"
  "produceQueue (pass_queueUpdatePB s C V) = produceQueue s @ [make_vc V (Some C)]"
  by (simp_all add: pass_queueUpdatePB_def consumeQueue_def produceQueue_def)

lemma tables_upd_obs [simp]:
  "consumeQueue (s\<lparr>tables := t\<rparr>) = consumeQueue s"
  "produceQueue (s\<lparr>tables := t\<rparr>) = produceQueue s"
  by (simp_all add: consumeQueue_def produceQueue_def)

















subsection \<open>A run under a monotone transfer function\<close>

text \<open>
  What the comparison leaves of \<^verbatim>\<open>NewPB\<close>, facts that differ, and what a call of
  \<^verbatim>\<open>updateBasePointer\<close> that returns true has stored.
\<close>

lemma comparedWithOld_props [simp]:
  "Overdef (comparedWithOld env Old N) = Overdef N"
  "Type (comparedWithOld env Old N) = Type N"
  "set (Values (comparedWithOld env Old N)) = set (Values N)"
  "distinct (Values (comparedWithOld env Old N)) = distinct (Values N)"
  "length (Values (comparedWithOld env Old N)) = length (Values N)"
  by (auto simp: comparedWithOld_def sortedByAddr_def split: option.splits)













end
